theory Spec2Isabelle
  imports Complex_Main
begin

section \<open>Numbers of the Go program\<close>

text \<open>
  The load generator computes its schedule in \<open>float64\<close> and converts the result to
  \<open>time.Duration\<close>, a 64-bit count of nanoseconds. A \<open>float64\<close> is modelled as a real
  number or one of the three special values of IEEE 754. The rounding applied after every
  arithmetic operation and conversion at run time is a parameter \<open>r\<close> (the constants
  \<open>2\<close> and \<open>float64(time.Second)\<close> are exact): the identity gives exact arithmetic, and
  \<open>binary64\<close> below is round-to-nearest-even to 53 significant bits. Zero carries no
  sign: a division by zero takes the divisor as \<open>+0\<close>, which is what \<open>high - low\<close> and
  \<open>float64(int)\<close> produce. Overflow of a finite operation to infinity and subnormal
  numbers are not modelled.
\<close>

datatype float64 = Fin real | PInf | NInf | NaN

type_synonym rounding = "real \<Rightarrow> real"

fun fneg :: "float64 \<Rightarrow> float64" where
  "fneg (Fin a) = Fin (- a)"
| "fneg PInf = NInf"
| "fneg NInf = PInf"
| "fneg NaN = NaN"

fun fadd :: "rounding \<Rightarrow> float64 \<Rightarrow> float64 \<Rightarrow> float64" where
  "fadd r (Fin a) (Fin b) = Fin (r (a + b))"
| "fadd r NaN y = NaN"
| "fadd r x NaN = NaN"
| "fadd r PInf NInf = NaN"
| "fadd r NInf PInf = NaN"
| "fadd r PInf y = PInf"
| "fadd r NInf y = NInf"
| "fadd r x PInf = PInf"
| "fadd r x NInf = NInf"

definition fsub :: "rounding \<Rightarrow> float64 \<Rightarrow> float64 \<Rightarrow> float64" where
  "fsub r x y = fadd r x (fneg y)"

fun fmul :: "rounding \<Rightarrow> float64 \<Rightarrow> float64 \<Rightarrow> float64" where
  "fmul r (Fin a) (Fin b) = Fin (r (a * b))"
| "fmul r NaN y = NaN"
| "fmul r x NaN = NaN"
| "fmul r (Fin a) y = (if a = 0 then NaN else if 0 < a then y else fneg y)"
| "fmul r x (Fin b) = (if b = 0 then NaN else if 0 < b then x else fneg x)"
| "fmul r PInf y = y"
| "fmul r NInf y = fneg y"

fun fdiv :: "rounding \<Rightarrow> float64 \<Rightarrow> float64 \<Rightarrow> float64" where
  "fdiv r (Fin a) (Fin b) =
     (if b = 0 then (if a = 0 then NaN else if 0 < a then PInf else NInf)
      else Fin (r (a / b)))"
| "fdiv r NaN y = NaN"
| "fdiv r x NaN = NaN"
| "fdiv r (Fin a) y = Fin 0"
| "fdiv r x (Fin b) = (if 0 \<le> b then x else fneg x)"
| "fdiv r x y = NaN"

fun fsqrt :: "rounding \<Rightarrow> float64 \<Rightarrow> float64" where
  "fsqrt r (Fin a) = (if a < 0 then NaN else Fin (r (sqrt a)))"
| "fsqrt r PInf = PInf"
| "fsqrt r NInf = NaN"
| "fsqrt r NaN = NaN"

definition float_of_int :: "rounding \<Rightarrow> int \<Rightarrow> float64" where
  "float_of_int r n = Fin (r (real_of_int n))"

text \<open>Round half to even, and rounding to the 53-bit significand of a \<open>float64\<close>.\<close>

definition round_even :: "real \<Rightarrow> int" where
  "round_even x =
     (let f = \<lfloor>x\<rfloor>; d = x - real_of_int f
      in if d < 1 / 2 then f else if 1 / 2 < d then f + 1
         else if even f then f else f + 1)"

definition binary64 :: rounding where
  "binary64 x =
     (if x = 0 then 0
      else let q = 2 powr (real_of_int \<lfloor>log 2 \<bar>x\<bar>\<rfloor> - 52)
           in real_of_int (round_even (x / q)) * q)"

text \<open>
  Go's \<open>int\<close> and \<open>time.Duration\<close> are 64-bit two's complement on the platforms the
  program targets; \<open>wrap64\<close> is the wrap-around of an integer operation. A conversion
  from \<open>float64\<close> truncates toward zero; for a value that the integer type cannot
  represent (out of range, infinite or NaN) the Go specification leaves the result to the
  implementation, so it is the parameter \<open>u\<close>.
\<close>

definition wrap64 :: "int \<Rightarrow> int" where
  "wrap64 x = (x + 2 ^ 63) mod 2 ^ 64 - 2 ^ 63"

definition go_trunc :: "real \<Rightarrow> int" where
  "go_trunc x = (if 0 \<le> x then \<lfloor>x\<rfloor> else \<lceil>x\<rceil>)"

fun to_int64 :: "(float64 \<Rightarrow> int) \<Rightarrow> float64 \<Rightarrow> int" where
  "to_int64 u (Fin a) =
     (if - (2 ^ 63) \<le> go_trunc a \<and> go_trunc a < 2 ^ 63 then go_trunc a else u (Fin a))"
| "to_int64 u x = u x"

record platform =
  rnd :: rounding
  conv :: "float64 \<Rightarrow> int"

text \<open>Exact arithmetic, and the amd64 port of Go (the conversion instruction yields the
  smallest 64-bit integer for every value it cannot represent).\<close>

definition exact :: "(float64 \<Rightarrow> int) \<Rightarrow> platform" where
  "exact u = \<lparr>rnd = (\<lambda>x. x), conv = u\<rparr>"

definition amd64 :: platform where
  "amd64 = \<lparr>rnd = binary64, conv = (\<lambda>x. - (2 ^ 63))\<rparr>"

section \<open>The rate schedule\<close>

text \<open>\<open>Lancer\<close>, \<open>NewLancer\<close> and \<open>tickTime\<close> of the command (the revision with
  \<open>missedFrac\<close>). \<open>time.Second\<close> is \<open>1000000000\<close>.\<close>

record Lancer =
  low :: float64
  high :: float64
  duration :: int
  lowSq :: float64
  slope :: float64
  durationSeconds :: float64
  missedFrac :: int

definition NewLancer :: "platform \<Rightarrow> float64 \<Rightarrow> float64 \<Rightarrow> int \<Rightarrow> int \<Rightarrow> Lancer" where
  "NewLancer p lo hi d mf =
     (let ds = fdiv (rnd p) (float_of_int (rnd p) d) (Fin 1000000000)
      in \<lparr>low = lo, high = hi, duration = d,
          lowSq = fmul (rnd p) lo lo,
          slope = fdiv (rnd p) (fsub (rnd p) hi lo) ds,
          durationSeconds = ds,
          missedFrac = mf\<rparr>)"

definition sqrt_arg :: "platform \<Rightarrow> Lancer \<Rightarrow> int \<Rightarrow> float64" where
  "sqrt_arg p l n =
     fadd (rnd p) (lowSq l) (fmul (rnd p) (fmul (rnd p) (Fin 2) (slope l)) (float_of_int (rnd p) n))"

definition tickTime :: "platform \<Rightarrow> Lancer \<Rightarrow> int \<Rightarrow> int" where
  "tickTime p l n =
     (if slope l = Fin 0
      then to_int64 (conv p)
             (fdiv (rnd p) (float_of_int (rnd p) (wrap64 (n * 1000000000))) (low l))
      else let ret = fdiv (rnd p) (fsub (rnd p) (fsqrt (rnd p) (sqrt_arg p l n)) (low l)) (slope l)
           in to_int64 (conv p) (fmul (rnd p) ret (Fin 1000000000)))"


definition tick_count :: "platform \<Rightarrow> Lancer \<Rightarrow> int" where
  "tick_count p l =
     to_int64 (conv p)
       (fdiv (rnd p) (fmul (rnd p) (fadd (rnd p) (high l) (low l)) (durationSeconds l)) (Fin 2))"


section \<open>The scheduler\<close>

text \<open>
  The scheduler reads the clock, sleeps and offers permits on an unbuffered channel. What
  it observes is an input of the model: \<open>now e i\<close> is the time elapsed since \<open>start\<close>
  when iteration \<open>i\<close> calls \<open>time.Now()\<close>, and \<open>sel e i\<close> is the branch that the
  \<open>select\<close> of iteration \<open>i\<close> takes (index \<open>0\<close> is the \<open>select\<close> before the loop).
  \<open>Neither\<close> says that no receiver and no cancellation is there: a \<open>select\<close> without
  \<open>default\<close> then waits for ever, one with \<open>default\<close> takes it. What the scheduler does is
  its trace of sleeps and sent permits, and how it ends. \<open>dt\<close> is the scheduled offset minus
  the elapsed time (\<open>Time.Sub\<close> saturates, which changes no comparison made on \<open>dt\<close>).
  The loop bound \<open>count + 1\<close> is taken without wrap-around: a count converted from a
  \<open>float64\<close> is below the largest 64-bit integer.
\<close>

datatype branch = SendOk | CtxDone | Neither

record env =
  now :: "int \<Rightarrow> int"
  sel :: "int \<Rightarrow> branch"

datatype action = Sleep int | Send int

datatype error =
    ErrNoReceiver | ErrTickMissed | ErrBadDuration
  | Canceled | MaxMissedFraction | NoReadyWorkersLeft

datatype ending = Returns "error option" | Blocks

type_synonym run = "action list \<times> ending"

definition after :: "action list \<Rightarrow> run \<Rightarrow> run" where
  "after as run = (as @ fst run, snd run)"

definition permits :: "run \<Rightarrow> int list" where
  "permits run = concat (map (\<lambda>a. case a of Send d \<Rightarrow> [d] | Sleep d \<Rightarrow> []) (fst run))"

definition sleep :: "int \<Rightarrow> action list" where
  "sleep dt = (if 1000000 < dt then [Sleep dt] else [])"

text \<open>\<open>Lancer.Lance\<close>: the loop from index \<open>i\<close> with \<open>missed\<close> deadlines so far. The text
  of the error (the rate near the missed tick) and the log line are left out.\<close>

function Lance_loop :: "platform \<Rightarrow> Lancer \<Rightarrow> env \<Rightarrow> int \<Rightarrow> int \<Rightarrow> int \<Rightarrow> run" where
  "Lance_loop p l e count i missed =
     (if i < count + 1 then
        let tick = tickTime p l i; dt = tick - now e i
        in if dt < 0 then
             if count < wrap64 (missedFrac l * (missed + 1))
             then ([], Returns (Some MaxMissedFraction))
             else Lance_loop p l e count (i + 1) (missed + 1)
           else
             case sel e i of
               SendOk \<Rightarrow> after (sleep dt @ [Send tick]) (Lance_loop p l e count (i + 1) missed)
             | CtxDone \<Rightarrow> (sleep dt, Returns None)
             | Neither \<Rightarrow> (sleep dt, Blocks)
      else ([], Returns None))"
  by pat_completeness auto
termination
  by (relation "measure (\<lambda>(p, l, e, count, i, missed). nat (count + 1 - i))") auto

definition Lance :: "platform \<Rightarrow> Lancer \<Rightarrow> env \<Rightarrow> run" where
  "Lance p l e =
     (let count = tick_count p l
      in case sel e 0 of
           SendOk \<Rightarrow> after [Send 0] (Lance_loop p l e count 1 0)
         | CtxDone \<Rightarrow> ([], Returns None)
         | Neither \<Rightarrow> ([], Blocks))"

text \<open>The library function \<open>Linear\<close>, with its own copy of the \<open>tickTime\<close> closure over the
  local variables \<open>low\<close>, \<open>lowSq\<close> and \<open>slope\<close>.\<close>

definition Linear_tickTime :: "platform \<Rightarrow> float64 \<Rightarrow> float64 \<Rightarrow> float64 \<Rightarrow> int \<Rightarrow> int" where
  "Linear_tickTime p lo lsq sl n =
     (if sl = Fin 0
      then to_int64 (conv p)
             (fdiv (rnd p) (float_of_int (rnd p) (wrap64 (n * 1000000000))) lo)
      else let ret = fdiv (rnd p)
                       (fsub (rnd p)
                          (fsqrt (rnd p)
                             (fadd (rnd p) lsq
                                (fmul (rnd p) (fmul (rnd p) (Fin 2) sl) (float_of_int (rnd p) n))))
                          lo)
                       sl
           in to_int64 (conv p) (fmul (rnd p) ret (Fin 1000000000)))"

function Linear_loop ::
  "platform \<Rightarrow> float64 \<Rightarrow> float64 \<Rightarrow> float64 \<Rightarrow> env \<Rightarrow> int \<Rightarrow> int \<Rightarrow> run" where
  "Linear_loop p lo lsq sl e count i =
     (if i < count + 1 then
        let nextTick = Linear_tickTime p lo lsq sl i; dt = nextTick - now e i
        in case sel e i of
             CtxDone \<Rightarrow> (sleep dt, Returns (Some Canceled))
           | SendOk \<Rightarrow> after (sleep dt @ [Send nextTick]) (Linear_loop p lo lsq sl e count (i + 1))
           | Neither \<Rightarrow> (sleep dt, Returns (Some ErrNoReceiver))
      else ([], Returns None))"
  by pat_completeness auto
termination
  by (relation "measure (\<lambda>(p, lo, lsq, sl, e, count, i). nat (count + 1 - i))") auto

definition Linear :: "platform \<Rightarrow> env \<Rightarrow> float64 \<Rightarrow> float64 \<Rightarrow> int \<Rightarrow> run" where
  "Linear p e lo hi d =
     (if d \<le> 0 then ([], Returns (Some ErrBadDuration))
      else
        let ds = fdiv (rnd p) (float_of_int (rnd p) d) (Fin 1000000000);
            lsq = fmul (rnd p) lo lo;
            sl = fdiv (rnd p) (fsub (rnd p) hi lo) ds
        in if d < Linear_tickTime p lo lsq sl 1 then ([], Returns (Some ErrBadDuration))
           else
             let count = to_int64 (conv p)
                           (fdiv (rnd p) (fmul (rnd p) (fadd (rnd p) hi lo) ds) (Fin 2))
             in Linear_loop p lo lsq sl e count 1)"


section \<open>The workers\<close>

text \<open>
  A worker sees, for each request it takes from \<open>spears\<close>, which branch its \<open>select\<close>
  takes (a permit with its offset, the cancellation, or neither for ever), what the
  transport answers and how long the call took. It announces itself on \<open>readyWorkers\<close>
  and sends records on \<open>hits\<close>; both sends are taken to succeed.
\<close>

record spear =
  Method :: string
  URLPath :: string

datatype permit = GotTick int | Stopped | NoPermit

datatype body = ReadOk nat | ReadFailed string nat

datatype roundtrip = RoundTripFailed string | Response int body

record call =
  permit :: permit
  started :: int
  reply :: roundtrip
  took :: int

record Hit =
  Path :: string
  Tick :: int
  TotalTime :: int
  SizeIn :: int
  ProtoCode :: int
  Error :: "string option"

definition no_Hit :: Hit where
  "no_Hit = \<lparr>Path = [], Tick = 0, TotalTime = 0, SizeIn = 0, ProtoCode = 0, Error = None\<rparr>"

datatype emitted = Ready int | Result Hit

definition shoot :: "spear \<Rightarrow> int \<Rightarrow> call \<Rightarrow> Hit" where
  "shoot s tick c =
     (case reply c of
        Response code (ReadOk n) \<Rightarrow>
          no_Hit\<lparr>Tick := tick, Path := URLPath s, ProtoCode := code,
                 TotalTime := took c, SizeIn := int n\<rparr>
      | Response code (ReadFailed err n) \<Rightarrow> no_Hit\<lparr>Error := Some err\<rparr>
      | RoundTripFailed err \<Rightarrow> no_Hit\<lparr>Error := Some err\<rparr>)"

fun Worker :: "(spear \<times> call) list \<Rightarrow> emitted list \<times> ending" where
  "Worker [] = ([], Returns None)"
| "Worker ((s, c) # spears) =
     (case permit c of
        GotTick tick \<Rightarrow>
          (let (out, fin) = Worker spears
           in (Ready 1 # Ready (- 1) # Result (shoot s tick c) # out, fin))
      | Stopped \<Rightarrow> ([Ready 1], Returns None)
      | NoPermit \<Rightarrow> ([Ready 1], Blocks))"

text \<open>The worker of the revision before the ready-worker tracker: its permits carry no
  offset and its records carry the time the call started. A failed read of the body comes
  with the number of bytes read before it, which this revision counts.\<close>

record Hit0 =
  Timestamp :: int
  TotalTime0 :: int
  SizeIn0 :: int
  ProtoCode0 :: int
  Error0 :: "string option"

definition no_Hit0 :: Hit0 where
  "no_Hit0 = \<lparr>Timestamp = 0, TotalTime0 = 0, SizeIn0 = 0, ProtoCode0 = 0, Error0 = None\<rparr>"

fun Worker0 :: "(spear \<times> call) list \<Rightarrow> Hit0 list \<times> ending" where
  "Worker0 [] = ([], Returns None)"
| "Worker0 ((s, c) # spears) =
     (case permit c of
        GotTick tick \<Rightarrow>
          (case reply c of
             RoundTripFailed err \<Rightarrow>
               ([no_Hit0\<lparr>Timestamp := started c, Error0 := Some err\<rparr>], Returns None)
           | Response code b \<Rightarrow>
               (let (out, fin) = Worker0 spears
                in (no_Hit0\<lparr>Timestamp := started c, ProtoCode0 := code, TotalTime0 := took c,
                             SizeIn0 := int (case b of ReadOk n \<Rightarrow> n | ReadFailed err n \<Rightarrow> n)\<rparr>
                    # out, fin)))
      | Stopped \<Rightarrow> ([], Returns None)
      | NoPermit \<Rightarrow> ([], Blocks))"

section \<open>The ready-worker tracker\<close>






section \<open>The schedule as the specification words it\<close>

text \<open>The closed form in seconds over the reals, the number of releases, and the
  \<open>time.Duration\<close> of a time given in seconds.\<close>

definition spec_slope :: "real \<Rightarrow> real \<Rightarrow> real \<Rightarrow> real" where
  "spec_slope lo hi ds = (hi - lo) / ds"

definition spec_tickTime :: "real \<Rightarrow> real \<Rightarrow> real \<Rightarrow> int \<Rightarrow> real" where
  "spec_tickTime lo hi ds n =
     (if spec_slope lo hi ds = 0 then real_of_int n / lo
      else (sqrt (lo\<^sup>2 + 2 * spec_slope lo hi ds * real_of_int n) - lo) / spec_slope lo hi ds)"

definition spec_N :: "real \<Rightarrow> real \<Rightarrow> real \<Rightarrow> int" where
  "spec_N lo hi ds = \<lfloor>(lo + hi) / 2 * ds\<rfloor>"

definition seconds :: "int \<Rightarrow> real" where
  "seconds d = real_of_int d / 1000000000"

definition nanoseconds :: "real \<Rightarrow> int" where
  "nanoseconds t = go_trunc (t * 1000000000)"

section \<open>Sample runs\<close>

text \<open>Observations used to run the scheduler on concrete profiles: a clock that shows
  the previous whole second with every permit taken, the same with the cancellation seen
  at every \<open>select\<close>, a clock that is half a second behind schedule at index \<open>1\<close> only, and
  a clock that is far beyond every deadline.\<close>

definition on_time :: env where
  "on_time = \<lparr>now = (\<lambda>i. (i - 1) * 1000000000), sel = (\<lambda>i. SendOk)\<rparr>"

definition cancelled :: env where
  "cancelled = \<lparr>now = (\<lambda>i. (i - 1) * 1000000000), sel = (\<lambda>i. CtxDone)\<rparr>"


definition always_late :: env where
  "always_late = \<lparr>now = (\<lambda>i. 1000000000000), sel = (\<lambda>i. SendOk)\<rparr>"



text \<open>The records and the announcements a worker has sent, the requests it has served,
  and sample requests:
  one refused by the transport, one answered in full, one whose body breaks off.\<close>

definition results :: "emitted list \<Rightarrow> Hit list" where
  "results out = concat (map (\<lambda>x. case x of Result h \<Rightarrow> [h] | Ready d \<Rightarrow> []) out)"

definition announced :: "emitted list \<Rightarrow> int list" where
  "announced out = concat (map (\<lambda>x. case x of Ready d \<Rightarrow> [d] | Result h \<Rightarrow> []) out)"

fun got_tick :: "permit \<Rightarrow> bool" where
  "got_tick (GotTick tick) = True"
| "got_tick Stopped = False"
| "got_tick NoPermit = False"

fun tick_of :: "permit \<Rightarrow> int" where
  "tick_of (GotTick tick) = tick"
| "tick_of Stopped = 0"
| "tick_of NoPermit = 0"

definition get_a :: spear where
  "get_a = \<lparr>Method = ''GET'', URLPath = ''/a''\<rparr>"

definition get_b :: spear where
  "get_b = \<lparr>Method = ''GET'', URLPath = ''/b''\<rparr>"

definition refused :: call where
  "refused = \<lparr>permit = GotTick 0, started = 1000, reply = RoundTripFailed ''connection refused'',
              took = 2000\<rparr>"

definition answered :: call where
  "answered = \<lparr>permit = GotTick 1000000000, started = 1000001000, reply = Response 200 (ReadOk 5),
               took = 3000000\<rparr>"

definition cut_short :: call where
  "cut_short = \<lparr>permit = GotTick 0, started = 1000, reply = Response 200 (ReadFailed ''unexpected EOF'' 3),
                took = 2000\<rparr>"

section \<open>Evaluating the arithmetic\<close>

declare Lance_loop.simps [simp del] Linear_loop.simps [simp del]

lemma round_even_of_int: "round_even (real_of_int m) = m"
  by (simp add: round_even_def)

lemma floor_log2_eq:
  assumes "2 powr real_of_int e \<le> \<bar>x\<bar>" "\<bar>x\<bar> < 2 powr (real_of_int e + 1)"
  shows "\<lfloor>log 2 \<bar>x\<bar>\<rfloor> = e"
proof -
  have pos: "0 < \<bar>x\<bar>" using assms(1) by (smt (verit) powr_gt_zero)
  have "real_of_int e \<le> log 2 \<bar>x\<bar>"
    using assms(1) pos by (simp add: le_log_iff)
  moreover have "log 2 \<bar>x\<bar> < real_of_int e + 1"
    using assms(2) pos by (simp add: log_less_iff)
  ultimately show ?thesis by linarith
qed

lemma two_powr_diff: "2 powr (real_of_int (int a - int b)) = 2 ^ a / 2 ^ (b::nat)"
proof -
  have "(2::real) powr (real a - real b) = 2 powr real a / 2 powr real b"
    by (rule powr_diff)
  then show ?thesis by (simp add: powr_realpow)
qed

lemma binary64_eval:
  assumes "2 ^ a / 2 ^ b \<le> \<bar>x\<bar>" "\<bar>x\<bar> < 2 * 2 ^ a / 2 ^ b"
  shows "binary64 x = real_of_int (round_even (x * 2 ^ (b + 52) / 2 ^ a)) * 2 ^ a / 2 ^ (b + 52)"
proof -
  define e where "e = int a - int b"
  have p0: "2 powr real_of_int e = 2 ^ a / 2 ^ b"
    unfolding e_def by (rule two_powr_diff)
  have "2 powr (real_of_int e + 1) = 2 powr real_of_int e * 2"
    by (simp add: powr_add)
  then have p1: "2 powr (real_of_int e + 1) = 2 * 2 ^ a / 2 ^ b"
    using p0 by simp
  have fl: "\<lfloor>log 2 \<bar>x\<bar>\<rfloor> = e"
    by (rule floor_log2_eq) (simp_all only: p0 p1 assms)
  have "real_of_int e - 52 = real_of_int (int a - int (b + 52))"
    by (simp add: e_def)
  then have q: "2 powr (real_of_int e - 52) = 2 ^ a / 2 ^ (b + 52)"
    by (simp only: two_powr_diff)
  have "x \<noteq> 0" using assms(1) by (smt (verit) divide_pos_pos zero_less_power zero_less_numeral)
  then have "binary64 x =
      real_of_int (round_even (x / 2 powr (real_of_int e - 52))) * 2 powr (real_of_int e - 52)"
    by (simp add: binary64_def Let_def fl)
  then show ?thesis by (simp only: q) (simp add: field_simps)
qed

lemma binary64_of_int:
  assumes "\<bar>n\<bar> < 2 ^ 53"
  shows "binary64 (real_of_int n) = real_of_int n"
proof (cases "n = 0")
  case True
  then show ?thesis by (simp add: binary64_def)
next
  case False
  define x where "x = real_of_int n"
  define e where "e = \<lfloor>log 2 \<bar>x\<bar>\<rfloor>"
  have x1: "1 \<le> \<bar>x\<bar>" using False by (simp add: x_def)
  have x2: "\<bar>x\<bar> < 2 ^ 53" using assms unfolding x_def
    by (metis of_int_abs of_int_less_numeral_power_cancel_iff)
  have "0 \<le> log 2 \<bar>x\<bar>" using x1 by simp
  then have e0: "0 \<le> e" by (simp add: e_def)
  have "log 2 \<bar>x\<bar> < 53"
    using x1 x2 by (simp add: log_less_iff)
  then have e52: "e \<le> 52" unfolding e_def by linarith
  define k where "k = nat (52 - e)"
  have q: "2 powr (real_of_int e - 52) = 1 / 2 ^ k"
  proof -
    have "real_of_int e - 52 = - real k" using e52 by (simp add: k_def)
    then show ?thesis by (simp add: powr_minus powr_realpow divide_inverse)
  qed
  have "x / (1 / 2 ^ k) = real_of_int (n * 2 ^ k)" by (simp add: x_def)
  then have r: "round_even (x / (1 / 2 ^ k)) = n * 2 ^ k"
    by (simp only: round_even_of_int)
  have "x \<noteq> 0" using x1 by auto
  then have "binary64 x =
      real_of_int (round_even (x / 2 powr (real_of_int e - 52))) * 2 powr (real_of_int e - 52)"
    by (simp add: binary64_def Let_def e_def)
  also have "\<dots> = real_of_int (n * 2 ^ k) * (1 / 2 ^ k)"
    by (simp only: q r)
  also have "\<dots> = x" by (simp add: x_def)
  finally show ?thesis by (simp add: x_def)
qed


lemma binary64_numeral [simp]:
  "\<bar>numeral w :: int\<bar> < 2 ^ 53 \<Longrightarrow> binary64 (numeral w) = numeral w"
  using binary64_of_int [of "numeral w"] by simp

lemma binary64_0 [simp]: "binary64 0 = 0"
  by (simp add: binary64_def)

lemma binary64_1 [simp]: "binary64 1 = 1"
  using binary64_of_int [of 1] by simp

lemma rnd_amd64 [simp]: "rnd amd64 = binary64"
  by (simp add: amd64_def)

lemma conv_amd64 [simp]: "conv amd64 x = - (2 ^ 63)"
  by (simp add: amd64_def)

lemma rnd_exact [simp]: "rnd (exact u) x = x"
  by (simp add: exact_def)

lemma conv_exact [simp]: "conv (exact u) = u"
  by (simp add: exact_def)

lemma wrap64_id: "- (2 ^ 63) \<le> x \<Longrightarrow> x < 2 ^ 63 \<Longrightarrow> wrap64 x = x"
  by (simp add: wrap64_def)

lemma go_trunc_of_int [simp]: "go_trunc (real_of_int n) = n"
  by (simp add: go_trunc_def)

text \<open>One request per second for two seconds, on amd64.\<close>

lemma one_rps_fields:
  "low (NewLancer amd64 (Fin 1) (Fin 1) 2000000000 mf) = Fin 1"
  "slope (NewLancer amd64 (Fin 1) (Fin 1) 2000000000 mf) = Fin 0"
  "missedFrac (NewLancer amd64 (Fin 1) (Fin 1) 2000000000 mf) = mf"
  by (simp_all add: NewLancer_def Let_def float_of_int_def fsub_def)

lemma one_rps_count: "tick_count amd64 (NewLancer amd64 (Fin 1) (Fin 1) 2000000000 mf) = 2"
  by (simp add: tick_count_def NewLancer_def Let_def float_of_int_def fsub_def go_trunc_def)

lemma one_rps_tickTime:
  assumes "0 \<le> n" "n \<le> 1000"
  shows "tickTime amd64 (NewLancer amd64 (Fin 1) (Fin 1) 2000000000 mf) n = n * 1000000000"
proof -
  have w: "wrap64 (n * 1000000000) = n * 1000000000"
    using assms by (intro wrap64_id) auto
  have "\<bar>n * 1000000000\<bar> < 2 ^ 53" using assms by auto
  then have b: "binary64 (real_of_int (n * 1000000000)) = real_of_int (n * 1000000000)"
    by (rule binary64_of_int)
  have r: "- (2 ^ 63) \<le> n * 1000000000 \<and> n * 1000000000 < 2 ^ 63"
    using assms by auto
  have "tickTime amd64 (NewLancer amd64 (Fin 1) (Fin 1) 2000000000 mf) n =
      to_int64 (conv amd64) (Fin (binary64 (real_of_int (n * 1000000000))))"
    by (simp add: tickTime_def one_rps_fields float_of_int_def w b del: of_int_mult)
  also have "\<dots> = n * 1000000000"
    using r by (simp only: b to_int64.simps go_trunc_of_int) simp
  finally show ?thesis .
qed

lemma one_rps_ticks:
  "tickTime amd64 (NewLancer amd64 (Fin 1) (Fin 1) 2000000000 mf) 1 = 1000000000"
  "tickTime amd64 (NewLancer amd64 (Fin 1) (Fin 1) 2000000000 mf) 2 = 2000000000"
  using one_rps_tickTime [of 1 mf] one_rps_tickTime [of 2 mf] by simp_all



section \<open>Runs of the scheduler\<close>

lemma permits_after: "permits (after as run) = permits (as, Returns None) @ permits run"
  by (simp add: permits_def after_def)

lemma permits_sleep [simp]: "permits (sleep dt @ as, fin) = permits (as, fin)"
  by (simp add: permits_def sleep_def)

lemma permits_Send [simp]: "permits (Send d # as, fin) = d # permits (as, fin)"
  by (simp add: permits_def)

lemma permits_Nil [simp]: "permits ([], fin) = []"
  by (simp add: permits_def)

lemma permits_only_sleep [simp]: "permits (sleep dt, fin) = []"
  by (simp add: permits_def sleep_def)

lemma snd_after [simp]: "snd (after as run) = snd run"
  by (simp add: after_def)

lemma Linear_tickTime_eq:
  "Linear_tickTime p (low l) (lowSq l) (slope l) n = tickTime p l n"
  by (simp add: Linear_tickTime_def tickTime_def sqrt_arg_def)

lemma Linear_NewLancer:
  "Linear p e lo hi d =
     (if d \<le> 0 then ([], Returns (Some ErrBadDuration))
      else if d < tickTime p (NewLancer p lo hi d mf) 1 then ([], Returns (Some ErrBadDuration))
      else Linear_loop p lo (lowSq (NewLancer p lo hi d mf)) (slope (NewLancer p lo hi d mf)) e
             (tick_count p (NewLancer p lo hi d mf)) 1)"
proof -
  have "Linear_tickTime p lo (lowSq (NewLancer p lo hi d mf)) (slope (NewLancer p lo hi d mf)) 1
      = tickTime p (NewLancer p lo hi d mf) 1"
    using Linear_tickTime_eq [of p "NewLancer p lo hi d mf" 1] by (simp add: NewLancer_def Let_def)
  then show ?thesis
    by (simp add: Linear_def Let_def NewLancer_def tick_count_def)
qed

lemma Linear_loop_never_missed:
  "snd (Linear_loop p lo lsq sl e count i) \<noteq> Returns (Some ErrTickMissed)"
proof (induction p lo lsq sl e count i rule: Linear_loop.induct)
  case (1 p lo lsq sl e count i)
  show ?case
  proof (cases "i < count + 1")
    case True
    with 1 show ?thesis
      by (subst Linear_loop.simps) (simp add: Let_def split: branch.split)
  next
    case False
    then show ?thesis by (subst Linear_loop.simps) simp
  qed
qed

lemma Linear_loop_all_sent:
  assumes "\<forall>j. i \<le> j \<and> j \<le> count \<longrightarrow> sel e j = SendOk"
  shows "permits (Linear_loop p lo lsq sl e count i) = map (Linear_tickTime p lo lsq sl) [i..count]
       \<and> snd (Linear_loop p lo lsq sl e count i) = Returns None"
  using assms
proof (induction p lo lsq sl e count i rule: Linear_loop.induct)
  case (1 p lo lsq sl e count i)
  show ?case
  proof (cases "i < count + 1")
    case True
    then have s: "sel e i = SendOk" using 1(2) by simp
    have "\<forall>j. i + 1 \<le> j \<and> j \<le> count \<longrightarrow> sel e j = SendOk" using 1(2) by simp
    then have ih: "permits (Linear_loop p lo lsq sl e count (i + 1)) =
        map (Linear_tickTime p lo lsq sl) [i + 1..count]
        \<and> snd (Linear_loop p lo lsq sl e count (i + 1)) = Returns None"
      using 1(1) True s by simp
    have u: "[i..count] = i # [i + 1..count]" using True by (simp add: upto_rec1)
    have le: "i \<le> count" using True by simp
    show ?thesis
      by (subst (1 2) Linear_loop.simps) (simp add: le s Let_def permits_after ih u)
  next
    case False
    then show ?thesis by (subst (1 2) Linear_loop.simps) simp
  qed
qed

lemma Lance_loop_all_sent:
  assumes "\<forall>j. i \<le> j \<and> j \<le> count \<longrightarrow> sel e j = SendOk"
    and "\<forall>j. i \<le> j \<and> j \<le> count \<longrightarrow> now e j \<le> tickTime p l j"
  shows "permits (Lance_loop p l e count i missed) = map (tickTime p l) [i..count]
       \<and> snd (Lance_loop p l e count i missed) = Returns None"
  using assms
proof (induction p l e count i missed rule: Lance_loop.induct)
  case (1 p l e count i missed)
  show ?case
  proof (cases "i < count + 1")
    case True
    then have s: "sel e i = SendOk" and t: "\<not> tickTime p l i - now e i < 0"
      using 1(3,4) by (simp, fastforce)
    have "\<forall>j. i + 1 \<le> j \<and> j \<le> count \<longrightarrow> sel e j = SendOk"
      and "\<forall>j. i + 1 \<le> j \<and> j \<le> count \<longrightarrow> now e j \<le> tickTime p l j"
      using 1(3,4) by simp_all
    then have ih: "permits (Lance_loop p l e count (i + 1) missed) =
        map (tickTime p l) [i + 1..count]
        \<and> snd (Lance_loop p l e count (i + 1) missed) = Returns None"
      using 1(2) True s t by simp
    have u: "[i..count] = i # [i + 1..count]" using True by (simp add: upto_rec1)
    have le: "i \<le> count" using True by simp
    have t': "\<not> tickTime p l i < now e i" using t by simp
    show ?thesis
      by (subst (1 2) Lance_loop.simps) (simp add: le s t' Let_def permits_after ih u)
  next
    case False
    then show ?thesis by (subst (1 2) Lance_loop.simps) simp
  qed
qed

lemma Lance_all_sent:
  assumes "\<forall>j. 0 \<le> j \<and> j \<le> tick_count p l \<longrightarrow> sel e j = SendOk"
    and "\<forall>j. 1 \<le> j \<and> j \<le> tick_count p l \<longrightarrow> now e j \<le> tickTime p l j"
    and "0 \<le> tick_count p l"
  shows "permits (Lance p l e) = 0 # map (tickTime p l) [1..tick_count p l]"
    and "snd (Lance p l e) = Returns None"
proof -
  have s0: "sel e 0 = SendOk" using assms(1,3) by simp
  have "\<forall>j. 1 \<le> j \<and> j \<le> tick_count p l \<longrightarrow> sel e j = SendOk" using assms(1) by simp
  from Lance_loop_all_sent [OF this assms(2)]
  show "permits (Lance p l e) = 0 # map (tickTime p l) [1..tick_count p l]"
    and "snd (Lance p l e) = Returns None"
    by (simp_all add: Lance_def Let_def s0 permits_after)
qed

lemma length_upto_1: "0 \<le> n \<Longrightarrow> length [1..n] = nat n"
  by simp








lemma Linear_loop_no_threshold:
  "snd (Linear_loop p lo lsq sl e count i) \<noteq> Returns (Some MaxMissedFraction)"
proof (induction p lo lsq sl e count i rule: Linear_loop.induct)
  case (1 p lo lsq sl e count i)
  show ?case
  proof (cases "i < count + 1")
    case True
    with 1 show ?thesis
      by (subst Linear_loop.simps) (simp add: Let_def split: branch.split)
  next
    case False
    then show ?thesis by (subst Linear_loop.simps) simp
  qed
qed

lemma one_rps_Linear_loop:
  "Linear amd64 e (Fin 1) (Fin 1) 2000000000 = Linear_loop amd64 (Fin 1) (Fin 1) (Fin 0) e 2 1"
  by (simp add: Linear_NewLancer [where mf = 0] one_rps_ticks one_rps_count one_rps_fields)
     (simp add: NewLancer_def Let_def float_of_int_def)

lemma one_rps_Linear_tickTime:
  "Linear_tickTime amd64 (Fin 1) (Fin 1) (Fin 0) n =
     tickTime amd64 (NewLancer amd64 (Fin 1) (Fin 1) 2000000000 0) n"
  by (simp add: Linear_tickTime_def tickTime_def one_rps_fields)

text \<open>
  C10. The library scheduler never returns \<open>ErrTickMissed\<close>, and it has no threshold on
  missed deadlines either: at an index whose deadline has passed it sends the tick at once,
  without a sleep, and goes on with the next index; when every \<open>select\<close> takes the send,
  all ticks are sent whatever the clock shows.
\<close>

theorem Linear_never_ErrTickMissed:
  "snd (Linear p e lo hi d) \<noteq> Returns (Some ErrTickMissed) \<and>
   snd (Linear p e lo hi d) \<noteq> Returns (Some MaxMissedFraction) \<and>
   (i < count + 1 \<and> Linear_tickTime p lo lsq sl i - now e i < 0 \<and> sel e i = SendOk \<longrightarrow>
      Linear_loop p lo lsq sl e count i =
        after [Send (Linear_tickTime p lo lsq sl i)] (Linear_loop p lo lsq sl e count (i + 1))) \<and>
   ((\<forall>j. 1 \<le> j \<and> j \<le> count \<longrightarrow> sel e j = SendOk) \<longrightarrow>
      permits (Linear_loop p lo lsq sl e count 1) = map (Linear_tickTime p lo lsq sl) [1..count] \<and>
      snd (Linear_loop p lo lsq sl e count 1) = Returns None)"
proof -
  have "snd (Linear p e lo hi d) \<noteq> Returns (Some ErrTickMissed)"
    by (simp add: Linear_def Let_def Linear_loop_never_missed)
  moreover have "snd (Linear p e lo hi d) \<noteq> Returns (Some MaxMissedFraction)"
    by (simp add: Linear_def Let_def Linear_loop_no_threshold)
  moreover have "Linear_loop p lo lsq sl e count i =
        after [Send (Linear_tickTime p lo lsq sl i)] (Linear_loop p lo lsq sl e count (i + 1))"
    if "i < count + 1" "Linear_tickTime p lo lsq sl i - now e i < 0" "sel e i = SendOk"
    using that by (subst Linear_loop.simps) (simp add: Let_def sleep_def)
  ultimately show ?thesis
    using Linear_loop_all_sent [where i = 1 and count = count and e = e] by blast
qed

theorem Linear_never_ErrTickMissed_witness:
  "snd (Linear amd64 always_late (Fin 1) (Fin 1) 2000000000) \<noteq> Returns (Some ErrTickMissed) \<and>
   Linear_tickTime amd64 (Fin 1) (Fin 1) (Fin 0) 1 - now always_late 1 < 0 \<and>
   sel always_late 1 = SendOk \<and>
   Linear_loop amd64 (Fin 1) (Fin 1) (Fin 0) always_late 2 1 =
     after [Send 1000000000] (Linear_loop amd64 (Fin 1) (Fin 1) (Fin 0) always_late 2 2) \<and>
   permits (Linear amd64 always_late (Fin 1) (Fin 1) 2000000000) = [1000000000, 2000000000] \<and>
   snd (Linear amd64 always_late (Fin 1) (Fin 1) 2000000000) = Returns None"
proof -
  have u: "[1..2::int] = [1, 2]" by (simp add: upto_rec1)
  have t: "Linear_tickTime amd64 (Fin 1) (Fin 1) (Fin 0) 1 = 1000000000"
    "Linear_tickTime amd64 (Fin 1) (Fin 1) (Fin 0) 2 = 2000000000"
    by (simp_all add: one_rps_Linear_tickTime one_rps_ticks)
  have h: "(1::int) < 2 + 1 \<and> Linear_tickTime amd64 (Fin 1) (Fin 1) (Fin 0) 1 - now always_late 1 < 0
      \<and> sel always_late 1 = SendOk"
    by (simp add: t always_late_def)
  have a: "\<forall>j. 1 \<le> j \<and> j \<le> 2 \<longrightarrow> sel always_late j = SendOk"
    by (simp add: always_late_def)
  note inst = Linear_never_ErrTickMissed [where p = amd64 and e = always_late and lo = "Fin 1"
        and hi = "Fin 1" and d = 2000000000 and i = 1 and count = 2 and lsq = "Fin 1"
        and sl = "Fin 0"]
  have c1: "snd (Linear amd64 always_late (Fin 1) (Fin 1) 2000000000) \<noteq> Returns (Some ErrTickMissed)"
    using inst by blast
  have c2: "Linear_loop amd64 (Fin 1) (Fin 1) (Fin 0) always_late 2 1 =
      after [Send (Linear_tickTime amd64 (Fin 1) (Fin 1) (Fin 0) 1)]
        (Linear_loop amd64 (Fin 1) (Fin 1) (Fin 0) always_late 2 (1 + 1))"
    using inst h by blast
  have c3: "permits (Linear_loop amd64 (Fin 1) (Fin 1) (Fin 0) always_late 2 1) =
        map (Linear_tickTime amd64 (Fin 1) (Fin 1) (Fin 0)) [1..2] \<and>
      snd (Linear_loop amd64 (Fin 1) (Fin 1) (Fin 0) always_late 2 1) = Returns None"
    using inst a by blast
  have c2': "Linear_loop amd64 (Fin 1) (Fin 1) (Fin 0) always_late 2 1 =
     after [Send 1000000000] (Linear_loop amd64 (Fin 1) (Fin 1) (Fin 0) always_late 2 2)"
    using c2 by (simp add: t)
  have c3': "permits (Linear amd64 always_late (Fin 1) (Fin 1) 2000000000) = [1000000000, 2000000000]"
    "snd (Linear amd64 always_late (Fin 1) (Fin 1) 2000000000) = Returns None"
    using c3 by (simp_all add: one_rps_Linear_loop u t)
  show ?thesis using c1 h c2' c3' by blast
qed




section \<open>The schedule in exact arithmetic\<close>

lemma seconds_pos: "0 < d \<Longrightarrow> 0 < seconds d"
  by (simp add: seconds_def)

lemma NewLancer_exact:
  assumes "d \<noteq> 0"
  shows "NewLancer (exact u) (Fin a) (Fin b) d mf =
    \<lparr>low = Fin a, high = Fin b, duration = d, lowSq = Fin (a * a),
     slope = Fin ((b - a) / seconds d), durationSeconds = Fin (seconds d), missedFrac = mf\<rparr>"
  using assms by (simp add: NewLancer_def Let_def float_of_int_def fsub_def seconds_def)

lemma slope_exact:
  assumes "d \<noteq> 0"
  shows "slope (NewLancer (exact u) (Fin a) (Fin b) d mf) = Fin (spec_slope a b (seconds d))"
  using assms by (simp add: NewLancer_exact spec_slope_def)

lemma spec_slope_0: "d \<noteq> 0 \<Longrightarrow> spec_slope a b (seconds d) = 0 \<longleftrightarrow> a = b"
  by (auto simp add: spec_slope_def seconds_def)

lemma tick_count_exact:
  assumes "0 < d" "0 \<le> a" "0 \<le> b" "spec_N a b (seconds d) < 2 ^ 63"
  shows "tick_count (exact u) (NewLancer (exact u) (Fin a) (Fin b) d mf) = spec_N a b (seconds d)"
proof -
  have nn: "0 \<le> (b + a) * seconds d / 2"
    using assms seconds_pos [of d] by simp
  have eq: "(b + a) * seconds d / 2 = (a + b) / 2 * seconds d" by simp
  have g: "go_trunc ((b + a) * seconds d / 2) = spec_N a b (seconds d)"
    using nn by (simp add: go_trunc_def spec_N_def eq)
  have "0 \<le> spec_N a b (seconds d)"
    using nn by (simp add: spec_N_def eq)
  then show ?thesis
    using assms(1,4) g by (simp add: tick_count_def NewLancer_exact)
qed

lemma tickTime_exact_constant:
  assumes "d \<noteq> 0" "a \<noteq> 0"
  shows "tickTime (exact u) (NewLancer (exact u) (Fin a) (Fin a) d mf) n =
    to_int64 u (Fin (real_of_int (wrap64 (n * 1000000000)) / a))"
  using assms by (simp add: tickTime_def NewLancer_exact float_of_int_def)

lemma tickTime_exact_ramp:
  assumes "d \<noteq> 0" "a \<noteq> b" "0 \<le> a\<^sup>2 + 2 * spec_slope a b (seconds d) * real_of_int n"
  shows "tickTime (exact u) (NewLancer (exact u) (Fin a) (Fin b) d mf) n =
    to_int64 u (Fin ((sqrt (a\<^sup>2 + 2 * spec_slope a b (seconds d) * real_of_int n) - a)
                      / spec_slope a b (seconds d) * 1000000000))"
proof -
  define l where "l = NewLancer (exact u) (Fin a) (Fin b) d mf"
  define s where "s = spec_slope a b (seconds d)"
  have f: "low l = Fin a" "lowSq l = Fin (a\<^sup>2)" "slope l = Fin s"
    using assms(1) by (simp_all add: l_def s_def NewLancer_exact spec_slope_def power2_eq_square)
  have s0: "s \<noteq> 0" using assms(1,2) by (simp add: s_def spec_slope_0)
  have arg: "sqrt_arg (exact u) l n = Fin (a\<^sup>2 + 2 * s * real_of_int n)"
    by (simp add: sqrt_arg_def f float_of_int_def)
  have "tickTime (exact u) l n =
      to_int64 u (Fin ((sqrt (a\<^sup>2 + 2 * s * real_of_int n) - a) / s * 1000000000))"
    using s0 assms(3) unfolding tickTime_def arg f s_def [symmetric]
    by (simp add: fsub_def Let_def del: to_int64.simps)
  then show ?thesis by (simp only: l_def s_def)
qed

lemma to_int64_in_range:
  "- (2 ^ 63) \<le> go_trunc x \<Longrightarrow> go_trunc x < 2 ^ 63 \<Longrightarrow> to_int64 u (Fin x) = go_trunc x"
  by simp

lemma tickTime_exact_spec:
  assumes "d \<noteq> 0"
    and "a = b \<longrightarrow> a \<noteq> 0 \<and> - (2 ^ 63) \<le> n * 1000000000 \<and> n * 1000000000 < 2 ^ 63"
    and "a \<noteq> b \<longrightarrow> 0 \<le> a\<^sup>2 + 2 * spec_slope a b (seconds d) * real_of_int n"
    and "- (2 ^ 63) \<le> nanoseconds (spec_tickTime a b (seconds d) n)"
    and "nanoseconds (spec_tickTime a b (seconds d) n) < 2 ^ 63"
  shows "tickTime (exact u) (NewLancer (exact u) (Fin a) (Fin b) d mf) n =
    nanoseconds (spec_tickTime a b (seconds d) n)"
proof (cases "a = b")
  case True
  then have w: "wrap64 (n * 1000000000) = n * 1000000000"
    using assms(2) by (simp add: wrap64_id)
  have "spec_tickTime a b (seconds d) n * 1000000000 = real_of_int (n * 1000000000) / a"
    using True assms(1) by (simp add: spec_tickTime_def spec_slope_0)
  then have n: "nanoseconds (spec_tickTime a b (seconds d) n) = go_trunc (real_of_int (n * 1000000000) / a)"
    by (simp only: nanoseconds_def)
  have a0: "a \<noteq> 0" using True assms(2) by simp
  have "tickTime (exact u) (NewLancer (exact u) (Fin a) (Fin a) d mf) n =
      to_int64 u (Fin (real_of_int (n * 1000000000) / a))"
    using tickTime_exact_constant [OF assms(1) a0] by (simp only: w)
  also have "\<dots> = go_trunc (real_of_int (n * 1000000000) / a)"
    using assms(4,5) unfolding n by (rule to_int64_in_range)
  finally have "tickTime (exact u) (NewLancer (exact u) (Fin a) (Fin a) d mf) n =
      nanoseconds (spec_tickTime a b (seconds d) n)"
    by (simp only: n)
  then show ?thesis using True by simp
next
  case False
  have n: "nanoseconds (spec_tickTime a b (seconds d) n) =
      go_trunc ((sqrt (a\<^sup>2 + 2 * spec_slope a b (seconds d) * real_of_int n) - a)
                      / spec_slope a b (seconds d) * 1000000000)"
    using False assms(1) by (simp add: nanoseconds_def spec_tickTime_def spec_slope_0)
  have arg: "0 \<le> a\<^sup>2 + 2 * spec_slope a b (seconds d) * real_of_int n"
    using False assms(3) by simp
  show ?thesis
    using assms(4,5) unfolding n tickTime_exact_ramp [OF assms(1) False arg]
    by (rule to_int64_in_range)
qed


lemma ten_rps_amd64:
  assumes "\<bar>n\<bar> \<le> 9000000"
  shows "tickTime amd64 (NewLancer amd64 (Fin 10) (Fin 10) 10000000000 mf) n = n * 100000000"
proof -
  define l where "l = NewLancer amd64 (Fin 10) (Fin 10) 10000000000 mf"
  have f: "low l = Fin 10" "slope l = Fin 0"
    by (simp_all add: l_def NewLancer_def Let_def float_of_int_def fsub_def)
  have w: "wrap64 (n * 1000000000) = n * 1000000000"
    using assms by (intro wrap64_id) auto
  have "\<bar>n * 1000000000\<bar> < 2 ^ 53" using assms by auto
  then have b1: "binary64 (real_of_int (n * 1000000000)) = real_of_int (n * 1000000000)"
    by (rule binary64_of_int)
  have q: "real_of_int (n * 1000000000) / 10 = real_of_int (n * 100000000)" by simp
  have "\<bar>n * 100000000\<bar> < 2 ^ 53" using assms by auto
  then have b2: "binary64 (real_of_int (n * 100000000)) = real_of_int (n * 100000000)"
    by (rule binary64_of_int)
  have "tickTime amd64 l n = to_int64 (conv amd64) (Fin (real_of_int (n * 100000000)))"
    unfolding tickTime_def f float_of_int_def w
    by (simp only: rnd_amd64 b1 fdiv.simps q b2) simp
  also have "\<dots> = n * 100000000"
    using assms by (simp only: to_int64.simps go_trunc_of_int) auto
  finally show ?thesis by (simp only: l_def)
qed

text \<open>
  In exact arithmetic \<open>tickTime\<close> (the method of the command and the closure of the
  library alike) is the closed-form inverse of the cumulative rate, as a \<open>time.Duration\<close>,
  wherever the closed form is defined and fits 64 bits; for \<open>low = high = 10\<close> and ten
  seconds it is \<open>n / 10\<close> seconds, also in \<open>float64\<close> at \<open>n = 50\<close>.
\<close>

lemma tickTime_exact_closed_form:
  assumes "0 < d"
    and "a = b \<longrightarrow> a \<noteq> 0 \<and> - (2 ^ 63) \<le> n * 1000000000 \<and> n * 1000000000 < 2 ^ 63"
    and "a \<noteq> b \<longrightarrow> 0 \<le> a\<^sup>2 + 2 * spec_slope a b (seconds d) * real_of_int n"
    and "- (2 ^ 63) \<le> nanoseconds (spec_tickTime a b (seconds d) n)"
    and "nanoseconds (spec_tickTime a b (seconds d) n) < 2 ^ 63"
  shows "tickTime (exact u) (NewLancer (exact u) (Fin a) (Fin b) d mf) n =
           nanoseconds (spec_tickTime a b (seconds d) n) \<and>
         Linear_tickTime (exact u) (Fin a) (lowSq (NewLancer (exact u) (Fin a) (Fin b) d mf))
             (slope (NewLancer (exact u) (Fin a) (Fin b) d mf)) n =
           nanoseconds (spec_tickTime a b (seconds d) n) \<and>
         (a = 10 \<and> b = 10 \<and> d = 10000000000 \<longrightarrow>
            tickTime (exact u) (NewLancer (exact u) (Fin a) (Fin b) d mf) n = n * 100000000) \<and>
         tickTime amd64 (NewLancer amd64 (Fin 10) (Fin 10) 10000000000 mf) 50 = 5000000000"
proof -
  have d0: "d \<noteq> 0" using assms(1) by simp
  note t = tickTime_exact_spec [OF d0 assms(2-5), of u mf]
  have lo: "low (NewLancer (exact u) (Fin a) (Fin b) d mf) = Fin a"
    by (simp add: NewLancer_def Let_def)
  have l: "Linear_tickTime (exact u) (Fin a) (lowSq (NewLancer (exact u) (Fin a) (Fin b) d mf))
             (slope (NewLancer (exact u) (Fin a) (Fin b) d mf)) n =
           nanoseconds (spec_tickTime a b (seconds d) n)"
    using Linear_tickTime_eq [of "exact u" "NewLancer (exact u) (Fin a) (Fin b) d mf" n] t
    by (simp only: lo)
  have ten: "nanoseconds (spec_tickTime a b (seconds d) n) = n * 100000000"
    if "a = 10" "b = 10" "d = 10000000000"
  proof -
    have "spec_tickTime a b (seconds d) n * 1000000000 = real_of_int (n * 100000000)"
      using that by (simp add: spec_tickTime_def spec_slope_def)
    then show ?thesis by (simp only: nanoseconds_def go_trunc_of_int)
  qed
  have "tickTime amd64 (NewLancer amd64 (Fin 10) (Fin 10) 10000000000 mf) 50 = 5000000000"
    using ten_rps_amd64 [of 50 mf] by simp
  moreover have "a = 10 \<and> b = 10 \<and> d = 10000000000 \<longrightarrow>
      tickTime (exact u) (NewLancer (exact u) (Fin a) (Fin b) d mf) n = n * 100000000"
    using ten by (simp only: t) blast
  ultimately show ?thesis using t l by blast
qed

lemma tickTime_exact_closed_form_examples:
  "(0::int) < 10000000000 \<and>
   nanoseconds (spec_tickTime 10 10 (seconds 10000000000) 50) = 5000000000 \<and>
   tickTime (exact (conv amd64)) (NewLancer (exact (conv amd64)) (Fin 10) (Fin 10) 10000000000 100) 50
     = 5000000000 \<and>
   nanoseconds (spec_tickTime 0 2 (seconds 1000000000) 1) = 1000000000 \<and>
   tickTime (exact (conv amd64)) (NewLancer (exact (conv amd64)) (Fin 0) (Fin 2) 1000000000 100) 1
     = 1000000000"
proof -
  have s4: "sqrt 4 = 2" using real_sqrt_abs [of 2] by simp
  have n1: "nanoseconds (spec_tickTime 10 10 (seconds 10000000000) 50) = 5000000000"
    by (simp add: nanoseconds_def spec_tickTime_def spec_slope_def seconds_def go_trunc_def)
  have n2: "nanoseconds (spec_tickTime 0 2 (seconds 1000000000) 1) = 1000000000"
    by (simp add: nanoseconds_def spec_tickTime_def spec_slope_def seconds_def go_trunc_def s4)
  have "tickTime (exact (conv amd64))
      (NewLancer (exact (conv amd64)) (Fin 10) (Fin 10) 10000000000 100) 50 = 5000000000"
    using tickTime_exact_closed_form [where a = 10 and b = 10 and d = 10000000000 and n = 50
        and u = "conv amd64" and mf = 100]
    by (simp add: n1)
  moreover have "tickTime (exact (conv amd64))
      (NewLancer (exact (conv amd64)) (Fin 0) (Fin 2) 1000000000 100) 1 = 1000000000"
  proof -
    have h3: "(0::real) \<noteq> 2 \<longrightarrow> 0 \<le> 0\<^sup>2 + 2 * spec_slope 0 2 (seconds 1000000000) * real_of_int 1"
      by (simp add: spec_slope_def seconds_def)
    have h4: "- (2 ^ 63) \<le> nanoseconds (spec_tickTime 0 2 (seconds 1000000000) 1)"
      and h5: "nanoseconds (spec_tickTime 0 2 (seconds 1000000000) 1) < 2 ^ 63"
      by (simp_all only: n2) simp_all
    have "tickTime (exact (conv amd64))
        (NewLancer (exact (conv amd64)) (Fin 0) (Fin 2) 1000000000 100) 1 =
        nanoseconds (spec_tickTime 0 2 (seconds 1000000000) 1)"
      using tickTime_exact_closed_form [where a = 0 and b = 2 and d = 1000000000 and n = 1
          and u = "conv amd64" and mf = 100, OF _ _ h3 h4 h5]
      by simp
    then show ?thesis by (simp only: n2)
  qed
  ultimately show ?thesis using n1 n2 by simp
qed




lemma one_rps_exact:
  assumes "0 \<le> n" "n \<le> 1000"
  shows "tickTime (exact u) (NewLancer (exact u) (Fin 1) (Fin 1) 2000000000 mf) n = n * 1000000000"
proof -
  have w: "wrap64 (n * 1000000000) = n * 1000000000"
    using assms by (intro wrap64_id) auto
  have "tickTime (exact u) (NewLancer (exact u) (Fin 1) (Fin 1) 2000000000 mf) n =
      to_int64 u (Fin (real_of_int (n * 1000000000)))"
    using tickTime_exact_constant [of 2000000000 1 u mf n] by (simp only: w) simp
  also have "\<dots> = n * 1000000000"
    using assms by (simp only: to_int64.simps go_trunc_of_int) auto
  finally show ?thesis .
qed

lemma one_rps_Lance_on_time:
  "Lance amd64 (NewLancer amd64 (Fin 1) (Fin 1) 2000000000 100) on_time =
     ([Send 0, Sleep 1000000000, Send 1000000000, Sleep 1000000000, Send 2000000000], Returns None)"
  by (simp add: Lance_def Lance_loop.simps one_rps_count one_rps_ticks one_rps_fields
      on_time_def Let_def after_def sleep_def)


lemma one_rps_Lance_always_late:
  "Lance amd64 (NewLancer amd64 (Fin 1) (Fin 1) 2000000000 1) always_late =
     ([Send 0], Returns None)"
  by (simp add: Lance_def Lance_loop.simps one_rps_count one_rps_ticks one_rps_fields
      always_late_def Let_def after_def sleep_def wrap64_def)

lemma one_rps_Linear_cancelled:
  "Linear amd64 cancelled (Fin 1) (Fin 1) 2000000000 =
     ([Sleep 1000000000], Returns (Some Canceled))"
  by (simp add: one_rps_Linear_loop Linear_loop.simps one_rps_Linear_tickTime one_rps_ticks
      cancelled_def Let_def sleep_def)


text \<open>
  C2 as stated fails on the command's scheduler: one request per second for two seconds
  gives \<open>N = 2\<close>, and the run with every permit taken in time sends three permits, the
  offset \<open>0\<close> first.
\<close>

theorem Lance_sends_offset_zero_counterexample:
  "spec_N 1 1 (seconds 2000000000) = 2 \<and>
   tick_count amd64 (NewLancer amd64 (Fin 1) (Fin 1) 2000000000 100) = 2 \<and>
   Lance amd64 (NewLancer amd64 (Fin 1) (Fin 1) 2000000000 100) on_time =
     ([Send 0, Sleep 1000000000, Send 1000000000, Sleep 1000000000, Send 2000000000],
      Returns None) \<and>
   length (permits (Lance amd64 (NewLancer amd64 (Fin 1) (Fin 1) 2000000000 100) on_time)) = 3"
  by (simp add: one_rps_Lance_on_time one_rps_count spec_N_def seconds_def permits_def)

text \<open>
  C7 as stated fails on the library scheduler: when its \<open>select\<close> sees the cancellation,
  \<open>Linear\<close> returns the error \<open>context.Canceled\<close>.
\<close>

theorem Linear_cancelled_counterexample:
  "sel cancelled 1 = CtxDone \<and>
   Linear amd64 cancelled (Fin 1) (Fin 1) 2000000000 =
     ([Sleep 1000000000], Returns (Some Canceled))"
  by (simp add: one_rps_Linear_cancelled) (simp add: cancelled_def)

text \<open>
  C7, amended. When a \<open>select\<close> of the scheduler takes the cancellation branch, the run ends
  there with nothing more sent: \<open>Lancer.Lance\<close> returns no error, at the \<open>select\<close> before the
  loop and at the one of any index whose deadline was not missed, and \<open>Linear\<close> returns the
  error \<open>context.Canceled\<close>. The sleep before the \<open>select\<close> is not interrupted.
\<close>

theorem cancellation_ends_run:
  "(sel e 0 = CtxDone \<longrightarrow> Lance p l e = ([], Returns None)) \<and>
   (sel e i = CtxDone \<and> i < count + 1 \<and> now e i \<le> tickTime p l i \<longrightarrow>
      Lance_loop p l e count i missed = (sleep (tickTime p l i - now e i), Returns None)) \<and>
   (sel e i = CtxDone \<and> i < count + 1 \<longrightarrow>
      Linear_loop p lo lsq sl e count i =
        (sleep (Linear_tickTime p lo lsq sl i - now e i), Returns (Some Canceled)))"
proof -
  have "Lance p l e = ([], Returns None)" if "sel e 0 = CtxDone"
    using that by (simp add: Lance_def Let_def)
  moreover have "Lance_loop p l e count i missed =
      (sleep (tickTime p l i - now e i), Returns None)"
    if "sel e i = CtxDone" "i < count + 1" "now e i \<le> tickTime p l i"
    using that by (subst Lance_loop.simps) (simp add: Let_def)
  moreover have "Linear_loop p lo lsq sl e count i =
        (sleep (Linear_tickTime p lo lsq sl i - now e i), Returns (Some Canceled))"
    if "sel e i = CtxDone" "i < count + 1"
    using that by (subst Linear_loop.simps) (simp add: Let_def)
  ultimately show ?thesis by blast
qed

theorem cancellation_ends_run_witness:
  "sel cancelled 0 = CtxDone \<and> sel cancelled 1 = CtxDone \<and> (1::int) < 2 + 1 \<and>
   now cancelled 1 \<le> tickTime amd64 (NewLancer amd64 (Fin 1) (Fin 1) 2000000000 100) 1 \<and>
   Lance amd64 (NewLancer amd64 (Fin 1) (Fin 1) 2000000000 100) cancelled = ([], Returns None) \<and>
   Lance_loop amd64 (NewLancer amd64 (Fin 1) (Fin 1) 2000000000 100) cancelled 2 1 0 =
     ([Sleep 1000000000], Returns None) \<and>
   Linear_loop amd64 (Fin 1) (Fin 1) (Fin 0) cancelled 2 1 =
     ([Sleep 1000000000], Returns (Some Canceled))"
proof -
  let ?l = "NewLancer amd64 (Fin 1) (Fin 1) 2000000000 100"
  have h: "sel cancelled 0 = CtxDone" "sel cancelled 1 = CtxDone" "(1::int) < 2 + 1"
    "now cancelled 1 \<le> tickTime amd64 ?l 1"
    by (simp_all add: cancelled_def one_rps_ticks)
  have s: "sleep (tickTime amd64 ?l 1 - now cancelled 1) = [Sleep 1000000000]"
    "sleep (Linear_tickTime amd64 (Fin 1) (Fin 1) (Fin 0) 1 - now cancelled 1) = [Sleep 1000000000]"
    by (simp_all add: one_rps_Linear_tickTime one_rps_ticks cancelled_def sleep_def)
  note inst = cancellation_ends_run [where e = cancelled and p = amd64 and l = ?l and i = 1
      and count = 2 and missed = 0 and lo = "Fin 1" and lsq = "Fin 1" and sl = "Fin 0"]
  have "Lance amd64 ?l cancelled = ([], Returns None)"
    using inst h by blast
  moreover have "Lance_loop amd64 ?l cancelled 2 1 0 = ([Sleep 1000000000], Returns None)"
    using inst h unfolding s by blast
  moreover have "Linear_loop amd64 (Fin 1) (Fin 1) (Fin 0) cancelled 2 1 =
     ([Sleep 1000000000], Returns (Some Canceled))"
    using inst h unfolding s by blast
  ultimately show ?thesis using h by blast
qed







section \<open>The tracker and the workers\<close>



lemma results_Ready [simp]: "results (Ready d # out) = results out"
  by (simp add: results_def)

lemma results_Result [simp]: "results (Result h # out) = h # results out"
  by (simp add: results_def)

lemma results_Nil [simp]: "results [] = []"
  by (simp add: results_def)

lemma Worker_one_result_each:
  "results (fst (Worker spears)) =
     map (\<lambda>(s, c). shoot s (tick_of (permit c)) c) (takeWhile (\<lambda>(s, c). got_tick (permit c)) spears)"
proof (induction spears)
  case Nil
  then show ?case by simp
next
  case (Cons x spears)
  obtain s c where x: "x = (s, c)" by (cases x)
  show ?case
  proof (cases "permit c")
    case (GotTick tick)
    then show ?thesis using Cons x by (simp add: split_beta)
  next
    case Stopped
    then show ?thesis using x by simp
  next
    case NoPermit
    then show ?thesis using x by simp
  qed
qed

lemma Worker_serves_all:
  assumes "\<forall>x \<in> set spears. got_tick (permit (snd x))"
  shows "length (results (fst (Worker spears))) = length spears \<and> snd (Worker spears) = Returns None"
  using assms
proof (induction spears)
  case Nil
  then show ?case by simp
next
  case (Cons x spears)
  obtain s c where x: "x = (s, c)" by (cases x)
  then obtain tick where "permit c = GotTick tick"
    using Cons.prems by (cases "permit c") auto
  then show ?case using Cons x by (simp add: split_beta)
qed

lemma shoot_Error:
  "Error (shoot s tick c) =
     (case reply c of RoundTripFailed err \<Rightarrow> Some err
      | Response code (ReadFailed err n) \<Rightarrow> Some err
      | Response code (ReadOk n) \<Rightarrow> None)"
  by (simp add: shoot_def no_Hit_def split: roundtrip.split body.split)

lemma Worker_output:
  "fst (Worker spears) =
     concat (map (\<lambda>(s, c). [Ready 1, Ready (- 1), Result (shoot s (tick_of (permit c)) c)])
               (takeWhile (\<lambda>(s, c). got_tick (permit c)) spears))
     @ (if list_all (\<lambda>(s, c). got_tick (permit c)) spears then [] else [Ready 1])"
proof (induction spears)
  case Nil
  then show ?case by simp
next
  case (Cons x spears)
  obtain s c where x: "x = (s, c)" by (cases x)
  show ?case
  proof (cases "permit c")
    case (GotTick tick)
    then show ?thesis using Cons x by (simp add: split_beta)
  next
    case Stopped
    then show ?thesis using x by simp
  next
    case NoPermit
    then show ?thesis using x by simp
  qed
qed

text \<open>
  C8 holds for the worker of the command's last revision (\<open>Worker_one_result_each\<close>,
  \<open>Worker_serves_all\<close>, \<open>shoot_Error\<close>), and fails for the worker of the revision before
  the tracker: after a request that the transport refuses it sends the record and returns,
  so the next request is never served by it, where the later worker serves both; and a
  body that breaks off is recorded as a success, with no error set.
\<close>

theorem Worker0_stops_after_failure:
  "Worker0 [(get_a, refused), (get_b, answered)] =
     ([\<lparr>Timestamp = 1000, TotalTime0 = 0, SizeIn0 = 0, ProtoCode0 = 0,
        Error0 = Some ''connection refused''\<rparr>], Returns None) \<and>
   map Error (results (fst (Worker [(get_a, refused), (get_b, answered)]))) =
     [Some ''connection refused'', None] \<and>
   Worker0 [(get_a, cut_short)] =
     ([\<lparr>Timestamp = 1000, TotalTime0 = 2000, SizeIn0 = 3, ProtoCode0 = 200, Error0 = None\<rparr>],
      Returns None) \<and>
   map Error (results (fst (Worker [(get_a, cut_short)]))) = [Some ''unexpected EOF'']"
  by (simp add: refused_def answered_def cut_short_def no_Hit0_def no_Hit_def shoot_def)




section \<open>Monotonicity of the closed form\<close>

lemma spec_N_le:
  assumes "real_of_int m \<le> real_of_int (spec_N a b D)"
  shows "real_of_int m \<le> (a + b) / 2 * D"
proof -
  have "real_of_int (spec_N a b D) \<le> (a + b) / 2 * D"
    unfolding spec_N_def by (rule of_int_floor_le)
  then show ?thesis using assms by linarith
qed

lemma ramp_area:
  assumes "D \<noteq> 0"
  shows "2 * spec_slope a b D * ((a + b) / 2 * D) = b\<^sup>2 - a\<^sup>2"
proof -
  have "2 * spec_slope a b D * ((a + b) / 2 * D) = (b - a) * (a + b) * (D / D)"
    by (simp add: spec_slope_def)
  also have "\<dots> = (b - a) * (a + b)" using assms by simp
  also have "\<dots> = b\<^sup>2 - a\<^sup>2" by (simp add: power2_eq_square algebra_simps)
  finally show ?thesis .
qed

text \<open>On the scheduled indices the square root argument lies between the squares of the
  two rates.\<close>

lemma sqrt_arg_bounds:
  assumes "0 \<le> a" "0 \<le> b" "0 < D" "0 \<le> m" "m \<le> spec_N a b D"
  shows "min (a\<^sup>2) (b\<^sup>2) \<le> a\<^sup>2 + 2 * spec_slope a b D * real_of_int m"
    and "a\<^sup>2 + 2 * spec_slope a b D * real_of_int m \<le> max (a\<^sup>2) (b\<^sup>2)"
proof -
  define s where "s = spec_slope a b D"
  define I where "I = (a + b) / 2 * D"
  have m0: "0 \<le> real_of_int m" using assms(4) by simp
  have mI: "real_of_int m \<le> I"
    unfolding I_def using assms(5) by (intro spec_N_le) simp
  have area: "2 * s * I = b\<^sup>2 - a\<^sup>2"
    unfolding s_def I_def using assms(3) by (intro ramp_area) simp
  have lo: "min (a\<^sup>2) (b\<^sup>2) \<le> a\<^sup>2 + 2 * s * real_of_int m"
  proof (cases "0 \<le> s")
    case True
    then have "0 \<le> 2 * s * real_of_int m" using m0 by simp
    then show ?thesis by linarith
  next
    case False
    then have "2 * s * I \<le> 2 * s * real_of_int m"
      using mI by (simp add: mult_left_mono_neg)
    then show ?thesis using area by linarith
  qed
  have hi: "a\<^sup>2 + 2 * s * real_of_int m \<le> max (a\<^sup>2) (b\<^sup>2)"
  proof (cases "0 \<le> s")
    case True
    then have "2 * s * real_of_int m \<le> 2 * s * I"
      using mI by (simp add: mult_left_mono)
    then show ?thesis using area by linarith
  next
    case False
    then have "2 * s * real_of_int m \<le> 0"
      using m0 by (simp add: mult_nonpos_nonneg)
    then show ?thesis by linarith
  qed
  show "min (a\<^sup>2) (b\<^sup>2) \<le> a\<^sup>2 + 2 * spec_slope a b D * real_of_int m"
    using lo by (simp only: s_def)
  show "a\<^sup>2 + 2 * spec_slope a b D * real_of_int m \<le> max (a\<^sup>2) (b\<^sup>2)"
    using hi by (simp only: s_def)
qed


lemma N_positive_rate:
  assumes "0 \<le> a" "0 \<le> b" "0 < D" "1 \<le> spec_N a b D"
  shows "0 < max a b"
proof (rule ccontr)
  assume "\<not> 0 < max a b"
  then have "a = 0" "b = 0" using assms(1,2) by auto
  then have "spec_N a b D = 0" by (simp add: spec_N_def)
  then show False using assms(4) by simp
qed

text \<open>Between two consecutive scheduled indices the closed form advances by at least the
  shortest interval of the profile, and it stays within the run.\<close>

lemma spec_tickTime_gap:
  assumes "0 \<le> a" "0 \<le> b" "0 < D" "0 \<le> n" "n + 1 \<le> spec_N a b D"
  shows "1 / max a b \<le> spec_tickTime a b D (n + 1) - spec_tickTime a b D n"
    and "0 \<le> spec_tickTime a b D n"
    and "spec_tickTime a b D (n + 1) \<le> D"
proof -
  define s where "s = spec_slope a b D"
  define M where "M = max a b"
  have N1: "1 \<le> spec_N a b D" using assms(4,5) by simp
  have M0: "0 < M" unfolding M_def using assms(1-3) N1 by (rule N_positive_rate)
  have g: "1 / M \<le> spec_tickTime a b D (n + 1) - spec_tickTime a b D n
      \<and> 0 \<le> spec_tickTime a b D n \<and> spec_tickTime a b D (n + 1) \<le> D"
  proof (cases "s = 0")
    case True
    then have ab: "a = b" using assms(3) by (simp add: s_def spec_slope_def)
    then have a0: "0 < a" using M0 by (simp add: M_def)
    have t: "spec_tickTime a b D m = real_of_int m / a" for m
      using True by (simp add: spec_tickTime_def s_def)
    have "real_of_int (n + 1) \<le> (a + b) / 2 * D"
      using assms(5) by (intro spec_N_le) simp
    then have "real_of_int (n + 1) \<le> a * D" using ab by simp
    then have "real_of_int (n + 1) / a \<le> D"
      using a0 by (simp add: pos_divide_le_eq mult.commute)
    moreover have "real_of_int (n + 1) / a - real_of_int n / a = 1 / a"
      by (simp add: diff_divide_distrib [symmetric])
    moreover have "0 \<le> real_of_int n / a" using assms(4) a0 by simp
    moreover have "M = a" using ab by (simp add: M_def)
    ultimately show ?thesis by (simp only: t) simp
  next
    case False
    define q where "q = a\<^sup>2 + 2 * s * real_of_int n"
    define q' where "q' = a\<^sup>2 + 2 * s * real_of_int (n + 1)"
    define r where "r = sqrt q"
    define r' where "r' = sqrt q'"
    have n1: "0 \<le> n + 1" "n \<le> spec_N a b D" using assms(4,5) by simp_all
    have qb: "min (a\<^sup>2) (b\<^sup>2) \<le> q" "q \<le> max (a\<^sup>2) (b\<^sup>2)"
      unfolding q_def s_def using assms(1-4) n1(2) by (rule sqrt_arg_bounds)+
    have q'b: "min (a\<^sup>2) (b\<^sup>2) \<le> q'" "q' \<le> max (a\<^sup>2) (b\<^sup>2)"
      unfolding q'_def s_def using assms(1-3) n1(1) assms(5) by (rule sqrt_arg_bounds)+
    have "0 \<le> min (a\<^sup>2) (b\<^sup>2)" by simp
    then have q0: "0 \<le> q" "0 \<le> q'" using qb(1) q'b(1) by linarith+
    have M2: "max (a\<^sup>2) (b\<^sup>2) = M\<^sup>2"
      using assms(1,2) by (simp add: M_def max_def power2_le_iff_abs_le)
    have rM: "r \<le> M" "r' \<le> M"
      using qb(2) q'b(2) M0 unfolding r_def r'_def M2
      by (simp_all add: real_le_lsqrt)
    have r0: "0 \<le> r" "0 \<le> r'" using q0 by (simp_all add: r_def r'_def)
    have rr: "r\<^sup>2 = q" "r'\<^sup>2 = q'" using q0 by (simp_all add: r_def r'_def)
    have dq: "q' - q = 2 * s" by (simp add: q_def q'_def algebra_simps)
    have prod: "(r' - r) * (r' + r) = 2 * s"
      using rr dq by (simp add: power2_eq_square algebra_simps)
    have R0: "0 < r' + r"
    proof (rule ccontr)
      assume "\<not> 0 < r' + r"
      then have "r' + r = 0" using r0 by linarith
      then have "2 * s = 0" using prod by simp
      then show False using False by simp
    qed
    have t: "spec_tickTime a b D n = (r - a) / s" "spec_tickTime a b D (n + 1) = (r' - a) / s"
      using False
      by (simp_all only: spec_tickTime_def s_def [symmetric] r_def r'_def q_def q'_def if_False)
    have "(r' - a) / s - (r - a) / s = (r' - r) / s"
      by (simp add: diff_divide_distrib [symmetric])
    also have "\<dots> = 2 / (r' + r)"
    proof -
      have "r' - r = 2 * s / (r' + r)" using prod R0 by (simp add: field_simps)
      then show ?thesis using False by simp
    qed
    finally have diff: "(r' - a) / s - (r - a) / s = 2 / (r' + r)" .
    have "r' + r \<le> 2 * M" using rM by simp
    then have "2 / (2 * M) \<le> 2 / (r' + r)"
      using R0 by (intro divide_left_mono) (simp_all add: M0)
    then have gap: "1 / M \<le> (r' - a) / s - (r - a) / s"
      using diff by simp
    have ra: "(0 < s \<longrightarrow> a \<le> r \<and> r' \<le> b) \<and> (s < 0 \<longrightarrow> r \<le> a \<and> b \<le> r')"
    proof -
      have sab: "(0 < s \<longrightarrow> a < b) \<and> (s < 0 \<longrightarrow> b < a)"
        using assms(3) by (auto simp add: s_def spec_slope_def field_simps zero_less_divide_iff
            divide_less_0_iff)
      have up: "a \<le> r \<and> r' \<le> b" if "a < b"
      proof -
        have "a\<^sup>2 \<le> b\<^sup>2" using that assms(1) by (simp add: power_mono)
        then have "a\<^sup>2 \<le> q" "q' \<le> b\<^sup>2" using qb(1) q'b(2) by linarith+
        then show ?thesis
          using assms(1,2) unfolding r_def r'_def
          by (simp add: real_le_rsqrt real_le_lsqrt)
      qed
      have down: "r \<le> a \<and> b \<le> r'" if "b < a"
      proof -
        have "b\<^sup>2 \<le> a\<^sup>2" using that assms(2) by (simp add: power_mono)
        then have "q \<le> a\<^sup>2" "b\<^sup>2 \<le> q'" using qb(2) q'b(1) by linarith+
        then show ?thesis
          using assms(1,2) unfolding r_def r'_def
          by (simp add: real_le_rsqrt real_le_lsqrt)
      qed
      show ?thesis using sab up down by blast
    qed
    have Ds: "(b - a) / s = D"
      using False assms(3) by (simp add: s_def spec_slope_def)
    have nonneg: "0 \<le> (r - a) / s"
    proof (cases "0 < s")
      case True
      then show ?thesis using ra by simp
    next
      case neg: False
      then have "s < 0" using False by simp
      then show ?thesis using ra by (simp add: divide_nonpos_neg)
    qed
    have upper: "(r' - a) / s \<le> D"
    proof (cases "0 < s")
      case True
      then have "(r' - a) / s \<le> (b - a) / s" using ra by (simp add: divide_right_mono)
      then show ?thesis by (simp only: Ds)
    next
      case neg: False
      then have "s < 0" using False by simp
      then have "(r' - a) / s \<le> (b - a) / s" using ra by (simp add: divide_right_mono_neg)
      then show ?thesis by (simp only: Ds)
    qed
    show ?thesis using gap nonneg upper by (simp only: t)
  qed
  show "1 / max a b \<le> spec_tickTime a b D (n + 1) - spec_tickTime a b D n"
    and "0 \<le> spec_tickTime a b D n"
    and "spec_tickTime a b D (n + 1) \<le> D"
    using g by (simp_all only: M_def)
qed


lemma nanoseconds_nonneg: "0 \<le> t \<Longrightarrow> nanoseconds t = \<lfloor>t * 1000000000\<rfloor>"
  by (simp add: nanoseconds_def go_trunc_def)

lemma seconds_nanoseconds: "seconds d * 1000000000 = real_of_int d"
  by (simp add: seconds_def)

lemma tickTime_scheduled:
  assumes "0 \<le> a" "0 \<le> b" "0 < d" "d < 2 ^ 63" "0 \<le> m" "m \<le> spec_N a b (seconds d)"
    and "1 \<le> spec_N a b (seconds d)"
    and "a = b \<longrightarrow> spec_N a b (seconds d) * 1000000000 < 2 ^ 63"
    and "0 \<le> spec_tickTime a b (seconds d) m" "spec_tickTime a b (seconds d) m \<le> seconds d"
  shows "tickTime (exact u) (NewLancer (exact u) (Fin a) (Fin b) d mf) m =
    \<lfloor>spec_tickTime a b (seconds d) m * 1000000000\<rfloor>"
proof -
  define T where "T = spec_tickTime a b (seconds d) m"
  have D: "0 < seconds d" using assms(3) by (rule seconds_pos)
  have "T * 1000000000 \<le> seconds d * 1000000000" using assms(10) by (simp add: T_def)
  then have up: "T * 1000000000 \<le> real_of_int d" by (simp only: seconds_nanoseconds)
  have ns: "nanoseconds T = \<lfloor>T * 1000000000\<rfloor>"
    using assms(9) unfolding T_def by (rule nanoseconds_nonneg)
  have "0 \<le> T * 1000000000" using assms(9) by (simp add: T_def)
  then have f0: "0 \<le> \<lfloor>T * 1000000000\<rfloor>" by simp
  have "\<lfloor>T * 1000000000\<rfloor> \<le> d" using up by (simp add: floor_le_iff)
  then have f1: "\<lfloor>T * 1000000000\<rfloor> < 2 ^ 63" using assms(4) by linarith
  have h2: "a = b \<longrightarrow> a \<noteq> 0 \<and> - (2 ^ 63) \<le> m * 1000000000 \<and> m * 1000000000 < 2 ^ 63"
  proof
    assume ab: "a = b"
    have "0 < max a b" using assms(1,2) D assms(7) by (rule N_positive_rate)
    then have "a \<noteq> 0" using ab by simp
    moreover have "m * 1000000000 \<le> spec_N a b (seconds d) * 1000000000"
      using assms(6) by simp
    then have "m * 1000000000 < 2 ^ 63" using assms(8) ab by linarith
    moreover have "- (2 ^ 63) \<le> m * 1000000000" using assms(5) by simp
    ultimately show "a \<noteq> 0 \<and> - (2 ^ 63) \<le> m * 1000000000 \<and> m * 1000000000 < 2 ^ 63"
      by blast
  qed
  have "0 \<le> min (a\<^sup>2) (b\<^sup>2)" by simp
  then have "0 \<le> a\<^sup>2 + 2 * spec_slope a b (seconds d) * real_of_int m"
    using sqrt_arg_bounds(1) [OF assms(1,2) D assms(5,6)] by linarith
  then have h3: "a \<noteq> b \<longrightarrow> 0 \<le> a\<^sup>2 + 2 * spec_slope a b (seconds d) * real_of_int m"
    by blast
  have h4: "- (2 ^ 63) \<le> nanoseconds (spec_tickTime a b (seconds d) m)"
    using f0 unfolding T_def [symmetric] ns by simp
  have h5: "nanoseconds (spec_tickTime a b (seconds d) m) < 2 ^ 63"
    using f1 unfolding T_def [symmetric] ns .
  have d0: "d \<noteq> 0" using assms(3) by simp
  show ?thesis
    using tickTime_exact_spec [OF d0 h2 h3 h4 h5, of u mf] ns by (simp only: T_def)
qed






text \<open>
  In exact arithmetic, for a valid profile whose duration and (on a constant rate)
  \<open>N * time.Second\<close> fit 64 bits, \<open>tickTime\<close> does not decrease over the scheduled indices,
  and it increases strictly when neither rate is above one request per nanosecond.
\<close>

lemma tickTime_exact_increasing:
  assumes "0 \<le> a" "0 \<le> b" "0 < d" "d < 2 ^ 63" "0 \<le> n" "n < spec_N a b (seconds d)"
    and "a = b \<longrightarrow> spec_N a b (seconds d) * 1000000000 < 2 ^ 63"
  shows "tickTime (exact u) (NewLancer (exact u) (Fin a) (Fin b) d mf) n
           \<le> tickTime (exact u) (NewLancer (exact u) (Fin a) (Fin b) d mf) (n + 1) \<and>
         (max a b \<le> 1000000000 \<longrightarrow>
            tickTime (exact u) (NewLancer (exact u) (Fin a) (Fin b) d mf) n
              < tickTime (exact u) (NewLancer (exact u) (Fin a) (Fin b) d mf) (n + 1))"
proof -
  define D where "D = seconds d"
  define T where "T = spec_tickTime a b D n"
  define T' where "T' = spec_tickTime a b D (n + 1)"
  define M where "M = max a b"
  have D0: "0 < D" unfolding D_def using assms(3) by (rule seconds_pos)
  have n1: "n + 1 \<le> spec_N a b D" "n \<le> spec_N a b D" "1 \<le> spec_N a b D" "0 \<le> n + 1"
    using assms(5,6) by (simp_all add: D_def)
  have gap: "1 / M \<le> T' - T" and T0: "0 \<le> T" and T'D: "T' \<le> D"
    unfolding T_def T'_def M_def
    using spec_tickTime_gap [OF assms(1,2) D0 assms(5) n1(1)] by blast+
  have M0: "0 < M" unfolding M_def using assms(1,2) D0 n1(3) by (rule N_positive_rate)
  then have "0 < 1 / M" by simp
  then have TT': "T \<le> T'" using gap by linarith
  have t: "tickTime (exact u) (NewLancer (exact u) (Fin a) (Fin b) d mf) n = \<lfloor>T * 1000000000\<rfloor>"
    unfolding T_def D_def
    using assms(1-5) n1(2) n1(3) assms(7) T0 TT' T'D
    by (intro tickTime_scheduled) (simp_all add: D_def T_def T'_def)
  have t': "tickTime (exact u) (NewLancer (exact u) (Fin a) (Fin b) d mf) (n + 1)
      = \<lfloor>T' * 1000000000\<rfloor>"
    unfolding T'_def D_def
    using assms(1-4) n1(4) n1(1) n1(3) assms(7) T0 TT' T'D
    by (intro tickTime_scheduled) (simp_all add: D_def T_def T'_def)
  have weak: "\<lfloor>T * 1000000000\<rfloor> \<le> \<lfloor>T' * 1000000000\<rfloor>"
    using TT' by (intro floor_mono) simp
  have strict: "\<lfloor>T * 1000000000\<rfloor> < \<lfloor>T' * 1000000000\<rfloor>" if "M \<le> 1000000000"
  proof -
    have "1 / 1000000000 \<le> 1 / M"
      using that M0 by (intro divide_left_mono) simp_all
    then have "T + 1 / 1000000000 \<le> T'" using gap by linarith
    then have "T * 1000000000 + 1 \<le> T' * 1000000000" by simp
    then have "\<lfloor>T * 1000000000 + 1\<rfloor> \<le> \<lfloor>T' * 1000000000\<rfloor>" by (rule floor_mono)
    then show ?thesis by simp
  qed
  show ?thesis using weak strict unfolding t t' M_def by blast
qed

section \<open>A falling ramp on amd64\<close>

lemma binary64_neg_numeral [simp]:
  "\<bar>numeral w :: int\<bar> < 2 ^ 53 \<Longrightarrow> binary64 (- numeral w) = - numeral w"
  using binary64_of_int [of "- numeral w"] by simp

lemma b64_slope: "binary64 (- (11 / 10)) = - (4953959590107546 / 2 ^ 52)"
  using binary64_eval [of 0 0 "- (11 / 10)"] by (simp add: round_even_def)

lemma b64_twice: "binary64 (2 * - (4953959590107546 / 2 ^ 52)) = - (4953959590107546 / 2 ^ 51)"
  using binary64_eval [of 1 0 "2 * - (4953959590107546 / 2 ^ 52)"] by (simp add: round_even_def)

lemma b64_times: "binary64 (- (4953959590107546 / 2 ^ 51) * 55) = - (8514618045497345 / 2 ^ 46)"
  using binary64_eval [of 6 0 "- (4953959590107546 / 2 ^ 51) * 55"] by (simp add: round_even_def)

lemma b64_sum: "binary64 (121 + - (8514618045497345 / 2 ^ 46)) = - (1 / 2 ^ 46)"
  using binary64_eval [of 0 46 "121 + - (8514618045497345 / 2 ^ 46)"] by (simp add: round_even_def)


lemma falling_ramp_fields:
  "low (NewLancer amd64 (Fin 11) (Fin 0) 10000000000 mf) = Fin 11"
  "high (NewLancer amd64 (Fin 11) (Fin 0) 10000000000 mf) = Fin 0"
  "lowSq (NewLancer amd64 (Fin 11) (Fin 0) 10000000000 mf) = Fin 121"
  "durationSeconds (NewLancer amd64 (Fin 11) (Fin 0) 10000000000 mf) = Fin 10"
  "slope (NewLancer amd64 (Fin 11) (Fin 0) 10000000000 mf) = Fin (- (4953959590107546 / 2 ^ 52))"
  by (simp_all add: NewLancer_def Let_def float_of_int_def fsub_def b64_slope)

lemma falling_ramp_count:
  "tick_count amd64 (NewLancer amd64 (Fin 11) (Fin 0) 10000000000 mf) = 55"
  by (simp add: tick_count_def falling_ramp_fields go_trunc_def)

lemma falling_ramp_sqrt_arg:
  "sqrt_arg amd64 (NewLancer amd64 (Fin 11) (Fin 0) 10000000000 mf) 55 = Fin (- (1 / 2 ^ 46))"
proof -
  have "sqrt_arg amd64 (NewLancer amd64 (Fin 11) (Fin 0) 10000000000 mf) 55 =
      fadd binary64 (Fin 121)
        (fmul binary64 (fmul binary64 (Fin 2) (Fin (- (4953959590107546 / 2 ^ 52)))) (Fin 55))"
    by (simp add: sqrt_arg_def falling_ramp_fields float_of_int_def)
  also have "\<dots> = fadd binary64 (Fin 121) (fmul binary64 (Fin (- (4953959590107546 / 2 ^ 51))) (Fin 55))"
    by (simp only: fmul.simps b64_twice)
  also have "\<dots> = fadd binary64 (Fin 121) (Fin (- (8514618045497345 / 2 ^ 46)))"
    by (simp only: fmul.simps b64_times)
  also have "\<dots> = Fin (- (1 / 2 ^ 46))"
    by (simp only: fadd.simps b64_sum)
  finally show ?thesis .
qed

lemma falling_ramp_tickTime:
  "tickTime amd64 (NewLancer amd64 (Fin 11) (Fin 0) 10000000000 mf) 55 = - (2 ^ 63)"
proof -
  have s: "slope (NewLancer amd64 (Fin 11) (Fin 0) 10000000000 mf) \<noteq> Fin 0"
    by (simp add: falling_ramp_fields)
  have "fsqrt binary64 (Fin (- (1 / 2 ^ 46))) = NaN" by simp
  then show ?thesis
    using s
    by (simp add: tickTime_def falling_ramp_sqrt_arg Let_def fsub_def falling_ramp_fields
        del: fsqrt.simps)
qed


text \<open>In exact arithmetic the square root is defined on every scheduled index.\<close>

lemma sqrt_arg_exact:
  assumes "0 \<le> a" "0 \<le> b" "0 < d" "0 \<le> n" "n \<le> spec_N a b (seconds d)"
  shows "\<exists>x. sqrt_arg (exact u) (NewLancer (exact u) (Fin a) (Fin b) d mf) n = Fin x \<and>
           min (a\<^sup>2) (b\<^sup>2) \<le> x \<and> fsqrt (rnd (exact u)) (Fin x) = Fin (sqrt x)"
proof -
  define x where "x = a\<^sup>2 + 2 * spec_slope a b (seconds d) * real_of_int n"
  have d0: "d \<noteq> 0" using assms(3) by simp
  have "sqrt_arg (exact u) (NewLancer (exact u) (Fin a) (Fin b) d mf) n = Fin x"
    by (simp add: sqrt_arg_def NewLancer_exact [OF d0] float_of_int_def x_def spec_slope_def
        power2_eq_square)
  moreover have m: "min (a\<^sup>2) (b\<^sup>2) \<le> x"
    unfolding x_def using assms(1,2) seconds_pos [OF assms(3)] assms(4,5)
    by (rule sqrt_arg_bounds)
  moreover have "0 \<le> min (a\<^sup>2) (b\<^sup>2)" by simp
  then have "0 \<le> x" using m by linarith
  then have "fsqrt (rnd (exact u)) (Fin x) = Fin (sqrt x)" by simp
  ultimately show ?thesis by blast
qed

text \<open>
  C9 holds in exact arithmetic (\<open>sqrt_arg_exact\<close>) and fails in \<open>float64\<close>: for the valid
  profile \<open>low = 11\<close>, \<open>high = 0\<close>, ten seconds, \<open>N\<close> is \<open>55\<close>, the slope is the \<open>float64\<close>
  nearest to \<open>-1.1\<close>, and at \<open>n = 55\<close> the rounded sum \<open>lowSq + 2 * slope * n\<close> is
  negative, \<open>- (1 / 2 ^ 46)\<close>. Its square root is NaN, and \<open>tickTime 55\<close> is the conversion of NaN to
  \<open>time.Duration\<close>, the smallest 64-bit integer on amd64.
\<close>

theorem falling_ramp_sqrt_of_negative:
  "tick_count amd64 (NewLancer amd64 (Fin 11) (Fin 0) 10000000000 100) = 55 \<and>
   sqrt_arg amd64 (NewLancer amd64 (Fin 11) (Fin 0) 10000000000 100) 55 = Fin (- (1 / 2 ^ 46)) \<and>
   fsqrt (rnd amd64) (sqrt_arg amd64 (NewLancer amd64 (Fin 11) (Fin 0) 10000000000 100) 55) = NaN \<and>
   tickTime amd64 (NewLancer amd64 (Fin 11) (Fin 0) 10000000000 100) 55 = - (2 ^ 63)"
proof -
  have "fsqrt binary64 (Fin (- (1 / 2 ^ 46))) = NaN" by simp
  then show ?thesis
    by (simp only: falling_ramp_count falling_ramp_sqrt_arg falling_ramp_tickTime rnd_amd64)
qed




section \<open>A profile of rate zero\<close>

lemma zero_rate_count:
  assumes "rnd p 0 = 0"
  shows "tick_count p (NewLancer p (Fin 0) (Fin 0) d mf) = 0"
  using assms
  by (simp add: tick_count_def NewLancer_def Let_def float_of_int_def go_trunc_def)

lemma zero_rate_Lance:
  assumes "rnd p 0 = 0"
  shows "Lance p (NewLancer p (Fin 0) (Fin 0) d mf) e =
     (case sel e 0 of
        SendOk \<Rightarrow> ([Send 0], Returns None)
      | CtxDone \<Rightarrow> ([], Returns None)
      | Neither \<Rightarrow> ([], Blocks))"
proof -
  have "Lance_loop p (NewLancer p (Fin 0) (Fin 0) d mf) e 0 1 0 = ([], Returns None)"
    by (subst Lance_loop.simps) simp
  then show ?thesis
    by (simp add: Lance_def zero_rate_count [OF assms] after_def split: branch.split)
qed

lemma zero_rate_Linear_exact:
  assumes "0 < d"
  shows "Linear (exact u) e (Fin 0) (Fin 0) d =
     (if d < u PInf then ([], Returns (Some ErrBadDuration)) else ([], Returns None))"
proof -
  have d0: "d \<noteq> 0" using assms by simp
  have w: "wrap64 1000000000 = 1000000000" by (simp add: wrap64_def)
  have t: "Linear_tickTime (exact u) (Fin 0) (Fin 0) (Fin 0) 1 = u PInf"
    by (simp add: Linear_tickTime_def float_of_int_def w)
  have l: "Linear_loop (exact u) (Fin 0) (Fin 0) (Fin 0) e 0 1 = ([], Returns None)"
    by (subst Linear_loop.simps) simp
  show ?thesis
    using assms d0 by (simp add: Linear_def Let_def float_of_int_def fsub_def t l go_trunc_def)
qed

lemma zero_rate_Linear_amd64:
  "Linear amd64 e (Fin 0) (Fin 0) 60000000000 = ([], Returns None)"
proof -
  have w: "wrap64 1000000000 = 1000000000" by (simp add: wrap64_def)
  have t: "Linear_tickTime amd64 (Fin 0) (Fin 0) (Fin 0) 1 = - (2 ^ 63)"
    by (simp add: Linear_tickTime_def float_of_int_def w)
  have l: "Linear_loop amd64 (Fin 0) (Fin 0) (Fin 0) e 0 1 = ([], Returns None)"
    by (subst Linear_loop.simps) simp
  show ?thesis
    using t by (simp add: Linear_def Let_def float_of_int_def fsub_def l go_trunc_def)
qed

text \<open>
  C5 as stated fails: on amd64 the profile \<open>low = 0\<close>, \<open>high = 0\<close>, sixty seconds is rejected
  by neither scheduler. \<open>Lancer.Lance\<close> sends the permit of offset \<open>0\<close> and returns no error,
  and \<open>Linear\<close> returns no error either.
\<close>

theorem zero_rate_accepted_counterexample:
  "Lance amd64 (NewLancer amd64 (Fin 0) (Fin 0) 60000000000 100) on_time = ([Send 0], Returns None) \<and>
   Linear amd64 on_time (Fin 0) (Fin 0) 60000000000 = ([], Returns None)"
proof -
  have r: "rnd amd64 0 = 0" by simp
  have "Lance amd64 (NewLancer amd64 (Fin 0) (Fin 0) 60000000000 100) on_time =
      ([Send 0], Returns None)"
    unfolding zero_rate_Lance [OF r] by (simp add: on_time_def)
  then show ?thesis using zero_rate_Linear_amd64 [of on_time] by blast
qed

text \<open>
  C5, amended. The command's scheduler validates nothing: for \<open>low = 0\<close>, \<open>high = 0\<close> and any
  duration, \<open>N\<close> is \<open>0\<close>, and \<open>Lancer.Lance\<close> offers the permit of offset \<open>0\<close> and returns no
  error, having sent that one permit or, when the run is cancelled first, none. The
  library function \<open>Linear\<close> rejects a duration that is not positive; on a zero-rate profile
  with a positive duration it sends no permit, and (in exact arithmetic) returns
  \<open>ErrBadDuration\<close> only where the implementation's conversion of \<open>+Inf\<close> to \<open>time.Duration\<close>
  exceeds the duration, and no error otherwise.
\<close>

theorem zero_rate_not_validated:
  "(rnd p 0 = 0 \<longrightarrow>
      tick_count p (NewLancer p (Fin 0) (Fin 0) d mf) = 0 \<and>
      Lance p (NewLancer p (Fin 0) (Fin 0) d mf) e =
        (case sel e 0 of
           SendOk \<Rightarrow> ([Send 0], Returns None)
         | CtxDone \<Rightarrow> ([], Returns None)
         | Neither \<Rightarrow> ([], Blocks))) \<and>
   (0 < d \<longrightarrow>
      Linear (exact u) e (Fin 0) (Fin 0) d =
        (if d < u PInf then ([], Returns (Some ErrBadDuration)) else ([], Returns None))) \<and>
   (d' \<le> 0 \<longrightarrow> Linear p e lo hi d' = ([], Returns (Some ErrBadDuration)))"
proof -
  have "Linear p e lo hi d' = ([], Returns (Some ErrBadDuration))" if "d' \<le> 0"
    using that by (simp add: Linear_def)
  then show ?thesis
    using zero_rate_count [of p d mf] zero_rate_Lance [of p d mf e]
      zero_rate_Linear_exact [of d u e]
    by blast
qed

theorem zero_rate_not_validated_witness:
  "rnd amd64 0 = 0 \<and> (0::int) < 60000000000 \<and>
   tick_count amd64 (NewLancer amd64 (Fin 0) (Fin 0) 60000000000 100) = 0 \<and>
   Lance amd64 (NewLancer amd64 (Fin 0) (Fin 0) 60000000000 100) cancelled = ([], Returns None) \<and>
   Linear (exact (conv amd64)) cancelled (Fin 0) (Fin 0) 60000000000 = ([], Returns None) \<and>
   Linear amd64 cancelled (Fin 1) (Fin 1) 0 = ([], Returns (Some ErrBadDuration))"
proof -
  have h: "rnd amd64 0 = 0" "(0::int) < 60000000000" "(0::int) \<le> 0"
    by simp_all
  note inst = zero_rate_not_validated [where p = amd64 and d = 60000000000 and mf = 100
      and e = cancelled and u = "conv amd64" and d' = 0 and lo = "Fin 1" and hi = "Fin 1"]
  have c1: "tick_count amd64 (NewLancer amd64 (Fin 0) (Fin 0) 60000000000 100) = 0"
    using inst h(1) by blast
  have "Lance amd64 (NewLancer amd64 (Fin 0) (Fin 0) 60000000000 100) cancelled =
        (case sel cancelled 0 of
           SendOk \<Rightarrow> ([Send 0], Returns None)
         | CtxDone \<Rightarrow> ([], Returns None)
         | Neither \<Rightarrow> ([], Blocks))"
    using inst h(1) by blast
  then have c2: "Lance amd64 (NewLancer amd64 (Fin 0) (Fin 0) 60000000000 100) cancelled =
      ([], Returns None)"
    by (simp add: cancelled_def)
  have "Linear (exact (conv amd64)) cancelled (Fin 0) (Fin 0) 60000000000 =
        (if 60000000000 < conv amd64 PInf then ([], Returns (Some ErrBadDuration))
         else ([], Returns None))"
    using inst h(2) by blast
  then have c3: "Linear (exact (conv amd64)) cancelled (Fin 0) (Fin 0) 60000000000 =
      ([], Returns None)"
    by simp
  have c4: "Linear amd64 cancelled (Fin 1) (Fin 1) 0 = ([], Returns (Some ErrBadDuration))"
    using inst h(3) by blast
  show ?thesis using h(1,2) c1 c2 c3 c4 by blast
qed




section \<open>Rounding is monotone\<close>













section \<open>Ticks do not go back\<close>


lemma NaN_right [simp]:
  "fadd r x NaN = NaN" "fmul r x NaN = NaN" "fdiv r x NaN = NaN"
  by (cases x; simp)+




























text \<open>
  C1 fails in \<open>float64\<close>, by the defect of C9. For the valid profile \<open>low = 11\<close>,
  \<open>high = 0\<close>, ten seconds, the closed form at the last scheduled index \<open>55\<close> is ten
  seconds, and \<open>tickTime 55\<close> (the method of the command and the closure of the library
  alike) is the conversion of NaN, the smallest 64-bit integer on amd64. In exact
  arithmetic the equality holds (\<open>tickTime_exact_closed_form\<close>).
\<close>

theorem closed_form_lost_on_falling_ramp:
  "spec_N 11 0 (seconds 10000000000) = 55 \<and>
   nanoseconds (spec_tickTime 11 0 (seconds 10000000000) 55) = 10000000000 \<and>
   tickTime amd64 (NewLancer amd64 (Fin 11) (Fin 0) 10000000000 100) 55 = - (2 ^ 63) \<and>
   Linear_tickTime amd64 (Fin 11) (Fin 121) (Fin (- (4953959590107546 / 2 ^ 52))) 55 = - (2 ^ 63)"
proof -
  let ?l = "NewLancer amd64 (Fin 11) (Fin 0) 10000000000 100"
  have N: "spec_N 11 0 (seconds 10000000000) = 55"
    by (simp add: spec_N_def seconds_def)
  have "spec_tickTime 11 0 (seconds 10000000000) 55 = 10"
    by (simp add: spec_tickTime_def spec_slope_def seconds_def)
  then have c: "nanoseconds (spec_tickTime 11 0 (seconds 10000000000) 55) = 10000000000"
    by (simp add: nanoseconds_def go_trunc_def)
  have t: "tickTime amd64 ?l 55 = - (2 ^ 63)" by (rule falling_ramp_tickTime)
  have "Linear_tickTime amd64 (low ?l) (lowSq ?l) (slope ?l) 55 = tickTime amd64 ?l 55"
    by (rule Linear_tickTime_eq)
  then have "Linear_tickTime amd64 (Fin 11) (Fin 121) (Fin (- (4953959590107546 / 2 ^ 52))) 55
      = - (2 ^ 63)"
    unfolding falling_ramp_fields t .
  then show ?thesis using N c t by blast
qed


text \<open>A hundred requests per second for 290 milliseconds: the product
  \<open>(high + low) * durationSeconds / 2\<close> is \<open>29\<close>, and just below it in \<open>float64\<close>.\<close>

lemma b64_029: "binary64 (29 / 100) = 5224175567749775 / 2 ^ 54"
  using binary64_eval [of 0 2 "29 / 100"] by (simp add: round_even_def)

lemma b64_58: "binary64 (200 * (5224175567749775 / 2 ^ 54)) = 8162774324609023 / 2 ^ 47"
  using binary64_eval [of 5 0 "200 * (5224175567749775 / 2 ^ 54)"] by (simp add: round_even_def)

lemma b64_29: "binary64 (8162774324609023 / 2 ^ 47 / 2) = 8162774324609023 / 2 ^ 48"
  using binary64_eval [of 4 0 "8162774324609023 / 2 ^ 47 / 2"] by (simp add: round_even_def)

lemma short_run_count:
  "tick_count amd64 (NewLancer amd64 (Fin 100) (Fin 100) 290000000 mf) = 28"
proof -
  let ?l = "NewLancer amd64 (Fin 100) (Fin 100) 290000000 mf"
  have f: "high ?l = Fin 100" "low ?l = Fin 100"
    "durationSeconds ?l = Fin (5224175567749775 / 2 ^ 54)"
    by (simp_all add: NewLancer_def Let_def float_of_int_def b64_029)
  have "fadd binary64 (Fin 100) (Fin 100) = Fin 200" by simp
  then have "tick_count amd64 ?l =
      to_int64 (conv amd64) (fdiv binary64 (fmul binary64 (Fin 200)
        (Fin (5224175567749775 / 2 ^ 54))) (Fin 2))"
    unfolding tick_count_def f rnd_amd64 by (simp only:)
  also have "\<dots> = to_int64 (conv amd64) (fdiv binary64 (Fin (8162774324609023 / 2 ^ 47)) (Fin 2))"
    by (simp only: fmul.simps b64_58)
  also have "\<dots> = to_int64 (conv amd64) (Fin (8162774324609023 / 2 ^ 48))"
    by (simp only: fdiv.simps b64_29) simp
  also have "\<dots> = 28" by (simp add: go_trunc_def)
  finally show ?thesis .
qed

lemma short_run_N: "spec_N 100 100 (seconds 290000000) = 29"
  by (simp add: spec_N_def seconds_def)

text \<open>
  C2, amended. On every platform, with \<open>count\<close> the number that the code computes as
  \<open>int((high + low) * durationSeconds / 2)\<close>, a run in which every \<open>select\<close> sends and no
  deadline is missed ends without error and has sent: from \<open>Lancer.Lance\<close> the offset \<open>0\<close>
  followed by \<open>tickTime 1, \<dots>, tickTime count\<close>, that is \<open>count + 1\<close> permits; from \<open>Linear\<close>,
  when it does not reject the profile, \<open>tickTime 1, \<dots>, tickTime count\<close>, that is \<open>count\<close>
  permits. In exact arithmetic \<open>count\<close> is \<open>N = \<lfloor>(low + high) / 2 * durationSeconds\<rfloor>\<close> for a
  valid profile; in \<open>float64\<close> it can be one less, as for a hundred requests per second
  during 290 milliseconds, where \<open>count\<close> is \<open>28\<close> and \<open>N\<close> is \<open>29\<close>.
\<close>

theorem full_run_permit_count:
  assumes "sel e 0 = SendOk"
    and "\<forall>j. 1 \<le> j \<and> j \<le> tick_count p l \<longrightarrow> sel e j = SendOk"
    and "\<forall>j. 1 \<le> j \<and> j \<le> tick_count p l \<longrightarrow> now e j \<le> tickTime p l j"
  shows "permits (Lance p l e) = 0 # map (tickTime p l) [1..tick_count p l] \<and>
         length (permits (Lance p l e)) = nat (tick_count p l) + 1 \<and>
         snd (Lance p l e) = Returns None \<and>
         (l = NewLancer p lo hi d mf \<and> 0 < d \<and> tickTime p l 1 \<le> d \<longrightarrow>
            permits (Linear p e lo hi d) = map (tickTime p l) [1..tick_count p l] \<and>
            length (permits (Linear p e lo hi d)) = nat (tick_count p l) \<and>
            snd (Linear p e lo hi d) = Returns None) \<and>
         (0 \<le> a \<and> 0 \<le> b \<and> 0 < d' \<and> spec_N a b (seconds d') < 2 ^ 63 \<longrightarrow>
            tick_count (exact u) (NewLancer (exact u) (Fin a) (Fin b) d' mf')
              = spec_N a b (seconds d')) \<and>
         tick_count amd64 (NewLancer amd64 (Fin 100) (Fin 100) 290000000 mf') = 28 \<and>
         spec_N 100 100 (seconds 290000000) = 29"
proof -
  define count where "count = tick_count p l"
  have loop: "permits (Lance_loop p l e count 1 0) = map (tickTime p l) [1..count]"
    "snd (Lance_loop p l e count 1 0) = Returns None"
    using Lance_loop_all_sent [of 1 count e p l 0] assms(2,3) by (simp_all add: count_def)
  have L1: "permits (Lance p l e) = 0 # map (tickTime p l) [1..count]"
    and L2: "snd (Lance p l e) = Returns None"
    using loop by (simp_all add: Lance_def Let_def assms(1) permits_after count_def)
  have L3: "length (permits (Lance p l e)) = nat count + 1"
    by (simp add: L1)
  have Lin: "permits (Linear p e lo hi d) = map (tickTime p l) [1..count] \<and>
      length (permits (Linear p e lo hi d)) = nat count \<and>
      snd (Linear p e lo hi d) = Returns None"
    if l: "l = NewLancer p lo hi d mf" and d: "0 < d" and t1: "tickTime p l 1 \<le> d"
  proof -
    have lo: "low l = lo" by (simp add: l NewLancer_def Let_def)
    have "Linear p e lo hi d = Linear_loop p lo (lowSq l) (slope l) e count 1"
      using d t1 by (simp add: Linear_NewLancer [where mf = mf] l [symmetric] count_def)
    moreover have "\<forall>j. 1 \<le> j \<and> j \<le> count \<longrightarrow> sel e j = SendOk"
      using assms(2) by (simp add: count_def)
    from Linear_loop_all_sent [OF this]
    have "permits (Linear_loop p lo (lowSq l) (slope l) e count 1) =
        map (tickTime p l) [1..count] \<and>
        snd (Linear_loop p lo (lowSq l) (slope l) e count 1) = Returns None"
      using Linear_tickTime_eq [of p l] by (simp add: lo)
    ultimately show ?thesis by simp
  qed
  have N: "tick_count (exact u) (NewLancer (exact u) (Fin a) (Fin b) d' mf') = spec_N a b (seconds d')"
    if "0 \<le> a \<and> 0 \<le> b \<and> 0 < d' \<and> spec_N a b (seconds d') < 2 ^ 63"
    using that by (intro tick_count_exact) simp_all
  show ?thesis
    using L1 L2 L3 Lin N short_run_count [of mf'] short_run_N unfolding count_def by blast
qed

theorem full_run_permit_count_witness:
  "sel on_time 0 = SendOk \<and> (0::int) < 2000000000 \<and>
   tickTime amd64 (NewLancer amd64 (Fin 1) (Fin 1) 2000000000 100) 1 \<le> 2000000000 \<and>
   spec_N 1 1 (seconds 2000000000) = 2 \<and>
   tick_count amd64 (NewLancer amd64 (Fin 1) (Fin 1) 2000000000 100) = 2 \<and>
   permits (Lance amd64 (NewLancer amd64 (Fin 1) (Fin 1) 2000000000 100) on_time)
     = [0, 1000000000, 2000000000] \<and>
   permits (Linear amd64 on_time (Fin 1) (Fin 1) 2000000000) = [1000000000, 2000000000] \<and>
   tick_count (exact (conv amd64)) (NewLancer (exact (conv amd64)) (Fin 1) (Fin 1) 2000000000 100) = 2"
proof -
  let ?l = "NewLancer amd64 (Fin 1) (Fin 1) 2000000000 100"
  have N: "spec_N 1 1 (seconds 2000000000) = 2"
    by (simp add: spec_N_def seconds_def)
  have c: "tick_count amd64 ?l = 2" by (rule one_rps_count)
  have u: "[1..2::int] = [1, 2]" by (simp add: upto_rec1)
  have h1: "sel on_time 0 = SendOk" by (simp add: on_time_def)
  have h2: "\<forall>j. 1 \<le> j \<and> j \<le> tick_count amd64 ?l \<longrightarrow> sel on_time j = SendOk"
    by (simp add: on_time_def)
  have h3: "\<forall>j. 1 \<le> j \<and> j \<le> tick_count amd64 ?l \<longrightarrow> now on_time j \<le> tickTime amd64 ?l j"
  proof (intro allI impI)
    fix j :: int
    assume "1 \<le> j \<and> j \<le> tick_count amd64 ?l"
    then have "0 \<le> j" "j \<le> 1000" by (simp_all add: c)
    then have "tickTime amd64 ?l j = j * 1000000000" by (rule one_rps_tickTime)
    then show "now on_time j \<le> tickTime amd64 ?l j" by (simp add: on_time_def)
  qed
  have h4: "?l = NewLancer amd64 (Fin 1) (Fin 1) 2000000000 100 \<and> (0::int) < 2000000000
      \<and> tickTime amd64 ?l 1 \<le> 2000000000"
    by (simp add: one_rps_ticks)
  have h5: "(0::real) \<le> 1 \<and> (0::real) \<le> 1 \<and> (0::int) < 2000000000
      \<and> spec_N 1 1 (seconds 2000000000) < 2 ^ 63"
    by (simp add: N)
  note inst = full_run_permit_count [where e = on_time and p = amd64 and l = ?l and lo = "Fin 1"
      and hi = "Fin 1" and d = 2000000000 and mf = 100 and a = 1 and b = 1 and d' = 2000000000
      and u = "conv amd64" and mf' = 100, OF h1 h2 h3]
  have r1: "permits (Lance amd64 ?l on_time) = 0 # map (tickTime amd64 ?l) [1..tick_count amd64 ?l]"
    using inst by blast
  have r2: "permits (Linear amd64 on_time (Fin 1) (Fin 1) 2000000000)
      = map (tickTime amd64 ?l) [1..tick_count amd64 ?l]"
    using inst h4 by blast
  have r3: "tick_count (exact (conv amd64))
      (NewLancer (exact (conv amd64)) (Fin 1) (Fin 1) 2000000000 100) = spec_N 1 1 (seconds 2000000000)"
    using inst h5 by blast
  have "permits (Lance amd64 ?l on_time) = [0, 1000000000, 2000000000]"
    using r1 by (simp add: c u one_rps_ticks)
  moreover have "permits (Linear amd64 on_time (Fin 1) (Fin 1) 2000000000)
      = [1000000000, 2000000000]"
    using r2 by (simp add: c u one_rps_ticks)
  moreover have "tick_count (exact (conv amd64))
      (NewLancer (exact (conv amd64)) (Fin 1) (Fin 1) 2000000000 100) = 2"
    using r3 by (simp only: N)
  ultimately show ?thesis using h1 h4 N c by blast
qed


lemma announced_simps [simp]:
  "announced [] = []"
  "announced (Ready d # out) = d # announced out"
  "announced (Result h # out) = announced out"
  by (simp_all add: announced_def)





end
